theory Spec2Isabelle
  imports Main "HOL-Library.Word" "HOL-Library.Monad_Syntax"
begin

section \<open>The GPU trace player (src/xenia/gpu/trace_player.cc)\<close>

text \<open>
  The model follows \<^verbatim>\<open>TracePlayer\<close> function by function. Pointers into the trace are
  offsets into the trace buffer (natural numbers), 32-bit header fields are \<open>32 word\<close>, a
  \<^verbatim>\<open>nullptr\<close> is \<open>None\<close>. Behaviour that C++ leaves undefined (a null dereference, an index
  outside a vector, a read outside the trace buffer) is a \<open>fault\<close> value, and a replay that
  never returns is \<open>None\<close> of the loop's option type. \<^verbatim>\<open>assert_true\<close> is modelled as in a
  checked build: a failed assertion is a fault.
\<close>

subsection \<open>Data\<close>

type_synonym byte = "8 word"
type_synonym uint32_t = "32 word"

datatype TraceCommandType =
    kPrimaryBufferStart | kPrimaryBufferEnd
  | kIndirectBufferStart | kIndirectBufferEnd
  | kPacketStart | kPacketEnd
  | kMemoryRead | kMemoryWrite
  | kEvent

text \<open>Only \<^verbatim>\<open>kBreakOnSwap\<close> is named in the source; \<open>kUntilEnd\<close> stands for any other mode.\<close>

datatype TracePlaybackMode = kUntilEnd | kBreakOnSwap

datatype SwapMode = kNormal | kIgnored

datatype fault =
    NullPointerDereference
  | IndexOutOfRange
  | AssertionFailure
  | PointerOutsideTrace
  | ReadOutsideTrace

text \<open>\<^verbatim>\<open>TraceReader::Frame\<close> and its commands, as far as the player reads them.\<close>

record Command =
  command_end_ptr :: nat

record Frame =
  start_ptr :: nat
  end_ptr :: nat
  commands :: "Command list"

text \<open>The calls the player makes on the command processor, in the order it makes them.\<close>

datatype backend_call =
    ExecutePacket uint32_t uint32_t
  | IssueSwap nat nat nat

text \<open>A closure handed to \<^verbatim>\<open>CallInThread\<close>: the arguments of \<^verbatim>\<open>PlayTraceOnThread\<close>.\<close>

record play_request =
  req_data :: nat
  req_size :: nat
  req_mode :: TracePlaybackMode

text \<open>
  The player object together with the parts of the graphics system it drives: the mapped
  trace and the frame index of its \<^verbatim>\<open>TraceReader\<close> base, the cursor fields, physical memory,
  the command processor's swap mode, the state of the command processor that the execution
  of packets reads and writes (of a type \<open>'s\<close> that is left open), the calls made on it and its
  queue of pending closures.
\<close>

record 's TracePlayer =
  trace_buffer :: "byte list"
  frames :: "Frame list"
  current_frame_index :: int
  current_command_index :: int
  playing_trace :: bool
  player_start_ptr :: nat
  player_target_ptr :: nat
  player_current_ptr :: nat
  physical_memory :: "nat \<Rightarrow> byte"
  swap_mode :: SwapMode
  backend_state :: 's
  backend_calls :: "backend_call list"
  call_queue :: "play_request list"

text \<open>
  What the player uses and the sources do not contain, taken as parameters: the trace
  protocol header (the value of each \<^verbatim>\<open>TraceCommandType\<close> enumerator, the value of
  \<^verbatim>\<open>EventType::kSwap\<close>, the size of each command struct and the offsets of the fields read),
  \<^verbatim>\<open>Memory::TranslatePhysical\<close>, \<^verbatim>\<open>DecompressMemory\<close> and the command processor. \<open>command_type\<close>
  maps a tag to the enumerator with that value, \<open>None\<close> when there is none.
  \<open>DecompressMemory X src n\<close> is the byte sequence that the decompressor stores at its
  destination when given the source bytes \<open>src\<close> and the destination size \<open>n\<close>.
  \<open>ExecutePacket_effect\<close> and \<open>IssueSwap_effect\<close> are what \<^verbatim>\<open>CommandProcessor::ExecutePacket\<close> and
  \<^verbatim>\<open>CommandProcessor::IssueSwap\<close> do, under the swap mode in force, to the command processor's
  state and to physical memory: the packet is executed against the memory that holds it.
\<close>

record 's externals =
  command_type :: "uint32_t \<Rightarrow> TraceCommandType option"
  kSwap :: uint32_t
  sizeof_command :: "TraceCommandType \<Rightarrow> nat"
  offsetof_count :: "TraceCommandType \<Rightarrow> nat"
  offsetof_base_ptr :: "TraceCommandType \<Rightarrow> nat"
  offsetof_length :: "TraceCommandType \<Rightarrow> nat"
  offsetof_full_length :: nat
  offsetof_event_type :: nat
  TranslatePhysical :: "uint32_t \<Rightarrow> nat"
  DecompressMemory :: "byte list \<Rightarrow> nat \<Rightarrow> byte list"
  ExecutePacket_effect ::
    "uint32_t \<Rightarrow> uint32_t \<Rightarrow> SwapMode \<Rightarrow> 's \<times> (nat \<Rightarrow> byte) \<Rightarrow> 's \<times> (nat \<Rightarrow> byte)"
  IssueSwap_effect ::
    "nat \<Rightarrow> nat \<Rightarrow> nat \<Rightarrow> SwapMode \<Rightarrow> 's \<times> (nat \<Rightarrow> byte) \<Rightarrow> 's \<times> (nat \<Rightarrow> byte)"

subsection \<open>Reading the trace, writing memory\<close>

text \<open>\<^verbatim>\<open>xe::load<uint32_t>\<close> and a 32-bit field read: four bytes, little-endian.\<close>

definition load_u32 :: "byte list \<Rightarrow> nat \<Rightarrow> uint32_t option" where
  "load_u32 buf p =
     (if p + 4 \<le> length buf
      then Some (word_of_nat (unat (buf ! p) + 256 * unat (buf ! (p + 1))
                  + 65536 * unat (buf ! (p + 2)) + 16777216 * unat (buf ! (p + 3))))
      else None)"

text \<open>The \<open>n\<close> source bytes of a \<^verbatim>\<open>memcpy\<close> out of the trace.\<close>

definition read_bytes :: "byte list \<Rightarrow> nat \<Rightarrow> nat \<Rightarrow> byte list option" where
  "read_bytes buf p n = (if p + n \<le> length buf then Some (take n (drop p buf)) else None)"

text \<open>Storing a byte sequence at a destination address.\<close>

definition store_bytes :: "(nat \<Rightarrow> byte) \<Rightarrow> nat \<Rightarrow> byte list \<Rightarrow> nat \<Rightarrow> byte" where
  "store_bytes mem dest bs = (\<lambda>a. if dest \<le> a \<and> a < dest + length bs then bs ! (a - dest) else mem a)"

text \<open>
  A pointer difference passed as a \<^verbatim>\<open>size_t\<close>: a negative difference wraps around (64 bits).
\<close>

definition ptr_diff :: "nat \<Rightarrow> nat \<Rightarrow> nat" where
  "ptr_diff a b = (if b \<le> a then a - b else 2 ^ 64 - (b - a))"

subsection \<open>The cursor: current_frame, SeekFrame, SeekCommand, PlayTrace\<close>

text \<open>
  Modelled from the spec: \<^verbatim>\<open>frame_count()\<close> and \<^verbatim>\<open>frame(n)\<close> of \<^verbatim>\<open>TraceReader\<close>, which are not
  among the sources. \<open>frame_count\<close> is the number of frames of the index; \<open>frame p n\<close> is
  element \<open>n\<close> of the index, and a fault when \<open>n\<close> is not an index of it.
\<close>

definition frame_count :: "'s TracePlayer \<Rightarrow> int" where
  "frame_count p = int (length (frames p))"

definition frame :: "'s TracePlayer \<Rightarrow> int \<Rightarrow> fault + Frame" where
  "frame p n =
     (if 0 \<le> n \<and> n < int (length (frames p)) then Inr (frames p ! nat n)
      else Inl IndexOutOfRange)"

text \<open>\<^verbatim>\<open>frame->commands[n]\<close>.\<close>

definition command_at :: "Frame \<Rightarrow> int \<Rightarrow> fault + Command" where
  "command_at f n =
     (if 0 \<le> n \<and> n < int (length (commands f)) then Inr (commands f ! nat n)
      else Inl IndexOutOfRange)"

text \<open>\<open>None\<close> is the \<^verbatim>\<open>nullptr\<close> result; otherwise the result of the frame lookup.\<close>

definition current_frame :: "'s TracePlayer \<Rightarrow> (fault + Frame) option" where
  "current_frame p =
     (if current_frame_index p > frame_count p then None
      else Some (frame p (current_frame_index p)))"

text \<open>
  \<^verbatim>\<open>PlayTrace\<close> hands the replay to the command processor's thread: the closure is appended
  to the queue.
\<close>

definition PlayTrace :: "nat \<Rightarrow> nat \<Rightarrow> TracePlaybackMode \<Rightarrow> 's TracePlayer \<Rightarrow> 's TracePlayer" where
  "PlayTrace data size_t mode p =
     p\<lparr>call_queue := call_queue p @ [\<lparr>req_data = data, req_size = size_t, req_mode = mode\<rparr>]\<rparr>"

definition SeekFrame :: "int \<Rightarrow> 's TracePlayer \<Rightarrow> fault + 's TracePlayer" where
  "SeekFrame target_frame p =
     (if current_frame_index p = target_frame then Inr p
      else
        let p1 = p\<lparr>current_frame_index := target_frame\<rparr> in
        case current_frame p1 of
          None \<Rightarrow> Inl NullPointerDereference
        | Some (Inl e) \<Rightarrow> Inl e
        | Some (Inr f) \<Rightarrow>
            let p2 = p1\<lparr>current_command_index := int (length (commands f)) - 1\<rparr> in
            if \<not> start_ptr f \<le> end_ptr f then Inl AssertionFailure
            else Inr (PlayTrace (start_ptr f) (ptr_diff (end_ptr f) (start_ptr f))
                        kBreakOnSwap p2))"

definition SeekCommand :: "int \<Rightarrow> 's TracePlayer \<Rightarrow> fault + 's TracePlayer" where
  "SeekCommand target_command p =
     (if current_command_index p = target_command then Inr p
      else
        let previous_command_index = current_command_index p;
            p1 = p\<lparr>current_command_index := target_command\<rparr>
        in
        if current_command_index p1 = - 1 then Inr p1
        else
          case current_frame p1 of
            None \<Rightarrow> Inl NullPointerDereference
          | Some (Inl e) \<Rightarrow> Inl e
          | Some (Inr f) \<Rightarrow>
              (case command_at f target_command of
                 Inl e \<Rightarrow> Inl e
               | Inr command \<Rightarrow>
                   if \<not> start_ptr f \<le> command_end_ptr command then Inl AssertionFailure
                   else if target_command \<noteq> 0 \<and> previous_command_index = target_command - 1
                   then
                     (case command_at f (target_command - 1) of
                        Inl e \<Rightarrow> Inl e
                      | Inr previous_command \<Rightarrow>
                          Inr (PlayTrace (command_end_ptr previous_command)
                                 (ptr_diff (command_end_ptr command)
                                    (command_end_ptr previous_command))
                                 kBreakOnSwap p1))
                   else
                     Inr (PlayTrace (start_ptr f)
                            (ptr_diff (command_end_ptr command) (start_ptr f))
                            kBreakOnSwap p1)))"

subsection \<open>The replay: PlayTraceOnThread\<close>

text \<open>
  The local variables of the replay loop. \<open>pending_packet\<close> is \<open>None\<close> for \<^verbatim>\<open>nullptr\<close>; the
  source keeps a pointer to the \<^verbatim>\<open>PacketStartCommand\<close> header in the (immutable) trace and
  reads \<^verbatim>\<open>base_ptr\<close> and \<^verbatim>\<open>count\<close> through it, the model keeps these two fields.
\<close>

record replay_locals =
  trace_ptr :: nat
  pending_break :: bool
  pending_packet :: "(uint32_t \<times> uint32_t) option"

text \<open>
  \<^verbatim>\<open>command_processor->ExecutePacket(base_ptr, count)\<close> and
  \<^verbatim>\<open>command_processor->IssueSwap(frontbuffer_ptr, width, height)\<close>: the command processor acts
  on its state and on physical memory, under the swap mode in force; the call is also
  recorded.
\<close>

definition command_processor_ExecutePacket ::
  "'s externals \<Rightarrow> uint32_t \<Rightarrow> uint32_t \<Rightarrow> 's TracePlayer \<Rightarrow> 's TracePlayer" where
  "command_processor_ExecutePacket X base_ptr count p =
     (let r = ExecutePacket_effect X base_ptr count (swap_mode p)
                (backend_state p, physical_memory p)
      in p\<lparr>backend_state := fst r, physical_memory := snd r,
           backend_calls := backend_calls p @ [ExecutePacket base_ptr count]\<rparr>)"

definition command_processor_IssueSwap ::
  "'s externals \<Rightarrow> nat \<Rightarrow> nat \<Rightarrow> nat \<Rightarrow> 's TracePlayer \<Rightarrow> 's TracePlayer" where
  "command_processor_IssueSwap X frontbuffer_ptr width height p =
     (let r = IssueSwap_effect X frontbuffer_ptr width height (swap_mode p)
                (backend_state p, physical_memory p)
      in p\<lparr>backend_state := fst r, physical_memory := snd r,
           backend_calls := backend_calls p @ [IssueSwap frontbuffer_ptr width height]\<rparr>)"

text \<open>
  One pass through the body of the \<^verbatim>\<open>while\<close> loop either reaches the end of the body
  (\<open>Continue\<close>) or leaves the function by the \<^verbatim>\<open>return\<close> of the \<^verbatim>\<open>kPacketEnd\<close> case
  (\<open>Return\<close>). \<open>None\<close>: a read outside the trace buffer.
\<close>

datatype 's iteration = Continue replay_locals "'s TracePlayer" | Return "'s TracePlayer"

definition loop_body ::
  "'s externals \<Rightarrow> TracePlaybackMode \<Rightarrow> replay_locals \<Rightarrow> 's TracePlayer \<Rightarrow> 's iteration option" where
  "loop_body X playback_mode l p0 =
     (let p = p0\<lparr>player_current_ptr := trace_ptr l\<rparr>;
          buf = trace_buffer p;
          cmd = trace_ptr l
      in do {
        tag \<leftarrow> load_u32 buf cmd;
        case command_type X tag of
          None \<Rightarrow> Some (Continue l p)
        | Some kPrimaryBufferStart \<Rightarrow> do {
            count \<leftarrow> load_u32 buf (cmd + offsetof_count X kPrimaryBufferStart);
            Some (Continue
              (l\<lparr>trace_ptr := cmd + (sizeof_command X kPrimaryBufferStart + unat (count * 4))\<rparr>) p)
          }
        | Some kPrimaryBufferEnd \<Rightarrow>
            Some (Continue (l\<lparr>trace_ptr := cmd + sizeof_command X kPrimaryBufferEnd\<rparr>) p)
        | Some kIndirectBufferStart \<Rightarrow> do {
            count \<leftarrow> load_u32 buf (cmd + offsetof_count X kIndirectBufferStart);
            Some (Continue
              (l\<lparr>trace_ptr := cmd + (sizeof_command X kIndirectBufferStart + unat (count * 4))\<rparr>) p)
          }
        | Some kIndirectBufferEnd \<Rightarrow>
            Some (Continue (l\<lparr>trace_ptr := cmd + sizeof_command X kIndirectBufferEnd\<rparr>) p)
        | Some kPacketStart \<Rightarrow> do {
            base_ptr \<leftarrow> load_u32 buf (cmd + offsetof_base_ptr X kPacketStart);
            count \<leftarrow> load_u32 buf (cmd + offsetof_count X kPacketStart);
            src \<leftarrow> read_bytes buf (cmd + sizeof_command X kPacketStart) (unat (count * 4));
            Some (Continue
              (l\<lparr>trace_ptr := cmd + sizeof_command X kPacketStart + unat (count * 4),
                  pending_packet := Some (base_ptr, count)\<rparr>)
              (p\<lparr>physical_memory :=
                   store_bytes (physical_memory p) (TranslatePhysical X base_ptr) src\<rparr>))
          }
        | Some kPacketEnd \<Rightarrow>
            (let l1 = l\<lparr>trace_ptr := cmd + sizeof_command X kPacketEnd\<rparr>;
                 p1 = (case pending_packet l of
                         Some (base_ptr, count) \<Rightarrow>
                           command_processor_ExecutePacket X base_ptr count p
                       | None \<Rightarrow> p);
                 l2 = l1\<lparr>pending_packet := None\<rparr>
             in if pending_break l then Some (Return p1) else Some (Continue l2 p1))
        | Some kMemoryRead \<Rightarrow> do {
            base_ptr \<leftarrow> load_u32 buf (cmd + offsetof_base_ptr X kMemoryRead);
            len \<leftarrow> load_u32 buf (cmd + offsetof_length X kMemoryRead);
            full_length \<leftarrow> load_u32 buf (cmd + offsetof_full_length X);
            src \<leftarrow> read_bytes buf (cmd + sizeof_command X kMemoryRead) (unat len);
            Some (Continue
              (l\<lparr>trace_ptr := cmd + sizeof_command X kMemoryRead + unat len\<rparr>)
              (p\<lparr>physical_memory :=
                   store_bytes (physical_memory p) (TranslatePhysical X base_ptr)
                     (if full_length \<noteq> 0 then DecompressMemory X src (unat full_length)
                      else src)\<rparr>))
          }
        | Some kMemoryWrite \<Rightarrow> do {
            len \<leftarrow> load_u32 buf (cmd + offsetof_length X kMemoryWrite);
            Some (Continue
              (l\<lparr>trace_ptr := cmd + sizeof_command X kMemoryWrite + unat len\<rparr>) p)
          }
        | Some kEvent \<Rightarrow> do {
            event_type \<leftarrow> load_u32 buf (cmd + offsetof_event_type X);
            Some (Continue
              (l\<lparr>trace_ptr := cmd + sizeof_command X kEvent,
                  pending_break :=
                    (if event_type = kSwap X \<and> playback_mode = kBreakOnSwap then True
                     else pending_break l)\<rparr>) p)
          }
      })"

text \<open>
  How the loop is left: by the \<^verbatim>\<open>return\<close> inside it, or because the loop condition fails;
  then the locals are those of the last test.
\<close>

datatype 's loop_exit = Returned "'s TracePlayer" | Exhausted replay_locals "'s TracePlayer"

partial_function (option) play_loop ::
  "'s externals \<Rightarrow> TracePlaybackMode \<Rightarrow> nat \<Rightarrow> replay_locals \<Rightarrow> 's TracePlayer
     \<Rightarrow> (fault + 's loop_exit) option" where
  "play_loop X playback_mode target l p =
     (if trace_ptr l < target then
        (case loop_body X playback_mode l p of
           None \<Rightarrow> Some (Inl ReadOutsideTrace)
         | Some (Continue l' p') \<Rightarrow> play_loop X playback_mode target l' p'
         | Some (Return p') \<Rightarrow> Some (Inr (Returned p')))
      else Some (Inr (Exhausted l p)))"

text \<open>
  \<^verbatim>\<open>PlayTraceOnThread\<close>. Forming \<^verbatim>\<open>trace_data + trace_size\<close> beyond the end of the trace
  buffer is undefined in C++: a fault.
\<close>

definition enter_replay :: "nat \<Rightarrow> nat \<Rightarrow> 's TracePlayer \<Rightarrow> 's TracePlayer" where
  "enter_replay data size_t p =
     p\<lparr>swap_mode := kIgnored,
       player_start_ptr := data,
       player_target_ptr := data + size_t,
       player_current_ptr := data,
       playing_trace := True\<rparr>"

definition initial_locals :: "nat \<Rightarrow> replay_locals" where
  "initial_locals data = \<lparr>trace_ptr = data, pending_break = False, pending_packet = None\<rparr>"

definition leave_replay :: "'s externals \<Rightarrow> 's TracePlayer \<Rightarrow> 's TracePlayer" where
  "leave_replay X p =
     command_processor_IssueSwap X 0 1280 720 (p\<lparr>playing_trace := False, swap_mode := kNormal\<rparr>)"

definition PlayTraceOnThread ::
  "'s externals \<Rightarrow> nat \<Rightarrow> nat \<Rightarrow> TracePlaybackMode \<Rightarrow> 's TracePlayer \<Rightarrow> (fault + 's TracePlayer) option" where
  "PlayTraceOnThread X data size_t playback_mode p =
     (if length (trace_buffer p) < data + size_t then Some (Inl PointerOutsideTrace)
      else
        case play_loop X playback_mode (data + size_t) (initial_locals data)
               (enter_replay data size_t p) of
          None \<Rightarrow> None
        | Some (Inl e) \<Rightarrow> Some (Inl e)
        | Some (Inr (Returned p')) \<Rightarrow> Some (Inr p')
        | Some (Inr (Exhausted l' p')) \<Rightarrow> Some (Inr (leave_replay X p')))"

subsection \<open>The command processor's thread and sequences of seeks\<close>

text \<open>
  Modelled from the spec: \<^verbatim>\<open>CommandProcessor::CallInThread\<close>, which is not among the sources:
  the closures run later on the command processor's thread, one after the other, in the
  order of their submission. A fault or a replay that does not return ends the run.
\<close>

fun run_requests ::
  "'s externals \<Rightarrow> play_request list \<Rightarrow> 's TracePlayer \<Rightarrow> (fault + 's TracePlayer) option" where
  "run_requests X [] p = Some (Inr p)"
| "run_requests X (r # rs) p =
     (case PlayTraceOnThread X (req_data r) (req_size r) (req_mode r) p of
        None \<Rightarrow> None
      | Some (Inl e) \<Rightarrow> Some (Inl e)
      | Some (Inr p') \<Rightarrow> run_requests X rs p')"

definition run_queue :: "'s externals \<Rightarrow> 's TracePlayer \<Rightarrow> (fault + 's TracePlayer) option" where
  "run_queue X p = run_requests X (call_queue p) (p\<lparr>call_queue := []\<rparr>)"

text \<open>A caller seeking to one command after the other.\<close>

fun seek_commands :: "int list \<Rightarrow> 's TracePlayer \<Rightarrow> fault + 's TracePlayer" where
  "seek_commands [] p = Inr p"
| "seek_commands (c # cs) p =
     (case SeekCommand c p of Inl e \<Rightarrow> Inl e | Inr p' \<Rightarrow> seek_commands cs p')"

text \<open>What a run leaves behind, seen through an observation of the player.\<close>

definition outcome ::
  "('s TracePlayer \<Rightarrow> 'a) \<Rightarrow> (fault + 's TracePlayer) option \<Rightarrow> (fault + 'a) option" where
  "outcome obs r = map_option (map_sum id obs) r"

text \<open>
  A replay of \<open>[a, b)\<close> under \<^verbatim>\<open>kBreakOnSwap\<close> is clean when its loop ends because the range
  is exhausted, with the cursor exactly on \<open>b\<close>, no break pending and no packet pending, and
  when the swap issued at its end changes neither the command processor's state nor physical
  memory. \<open>clean_steps X a bs p\<close>: starting at \<open>a\<close> in state \<open>p\<close>, the replays of the consecutive
  ranges that end at the offsets \<open>bs\<close> are all clean.
\<close>

definition clean_replay :: "'s externals \<Rightarrow> nat \<Rightarrow> nat \<Rightarrow> 's TracePlayer \<Rightarrow> bool" where
  "clean_replay X a b p =
     (case play_loop X kBreakOnSwap b (initial_locals a) (enter_replay a (b - a) p) of
        Some (Inr (Exhausted l' p')) \<Rightarrow>
          trace_ptr l' = b \<and> \<not> pending_break l' \<and> pending_packet l' = None \<and>
          IssueSwap_effect X 0 1280 720 kNormal (backend_state p', physical_memory p')
            = (backend_state p', physical_memory p')
      | _ \<Rightarrow> False)"

fun clean_steps :: "'s externals \<Rightarrow> nat \<Rightarrow> nat list \<Rightarrow> 's TracePlayer \<Rightarrow> bool" where
  "clean_steps X a [] p = True"
| "clean_steps X a (b # bs) p =
     (a \<le> b \<and> clean_replay X a b p \<and>
      (case PlayTraceOnThread X a (b - a) kBreakOnSwap p of
         Some (Inr p') \<Rightarrow> clean_steps X b bs p'
       | _ \<Rightarrow> False))"

subsection \<open>A concrete protocol and concrete traces\<close>

text \<open>
  Modelled from the spec: the trace protocol header, which is not among the sources. Every
  record starts with a 4-byte tag; the fields of the record table follow in the order of the
  table, 4 bytes each; the tags number the kinds in the order of the table; \<open>Swap\<close> is event
  kind 0. Physical addresses translate to themselves. The decompressor is a parameter. The
  command processor is idle: executing a packet and issuing a swap change neither its state
  nor physical memory (the calls are still recorded).
\<close>

definition spec_command_type :: "uint32_t \<Rightarrow> TraceCommandType option" where
  "spec_command_type t =
     (if t = 0 then Some kPrimaryBufferStart
      else if t = 1 then Some kPrimaryBufferEnd
      else if t = 2 then Some kIndirectBufferStart
      else if t = 3 then Some kIndirectBufferEnd
      else if t = 4 then Some kPacketStart
      else if t = 5 then Some kPacketEnd
      else if t = 6 then Some kMemoryRead
      else if t = 7 then Some kMemoryWrite
      else if t = 8 then Some kEvent
      else None)"

fun spec_sizeof :: "TraceCommandType \<Rightarrow> nat" where
  "spec_sizeof kPrimaryBufferStart = 8"
| "spec_sizeof kPrimaryBufferEnd = 4"
| "spec_sizeof kIndirectBufferStart = 8"
| "spec_sizeof kIndirectBufferEnd = 4"
| "spec_sizeof kPacketStart = 12"
| "spec_sizeof kPacketEnd = 4"
| "spec_sizeof kMemoryRead = 16"
| "spec_sizeof kMemoryWrite = 8"
| "spec_sizeof kEvent = 8"

definition spec_externals :: "(byte list \<Rightarrow> nat \<Rightarrow> byte list) \<Rightarrow> 's externals" where
  "spec_externals D =
     \<lparr>command_type = spec_command_type,
      kSwap = 0,
      sizeof_command = spec_sizeof,
      offsetof_count = (\<lambda>t. if t = kPacketStart then 8 else 4),
      offsetof_base_ptr = (\<lambda>t. 4),
      offsetof_length = (\<lambda>t. if t = kMemoryRead then 8 else 4),
      offsetof_full_length = 12,
      offsetof_event_type = 4,
      TranslatePhysical = unat,
      DecompressMemory = D,
      ExecutePacket_effect = (\<lambda>base_ptr count mode sm. sm),
      IssueSwap_effect = (\<lambda>frontbuffer_ptr width height mode sm. sm)\<rparr>"

text \<open>
  A command processor whose packets write to memory: executing the packet at \<open>base_ptr\<close>
  copies the packet's first byte to the address 256 bytes further on. Issuing a swap changes
  nothing, as before.
\<close>

definition copy_first_byte ::
  "uint32_t \<Rightarrow> uint32_t \<Rightarrow> SwapMode \<Rightarrow> unit \<times> (nat \<Rightarrow> byte) \<Rightarrow> unit \<times> (nat \<Rightarrow> byte)" where
  "copy_first_byte base_ptr count mode sm =
     (fst sm, (snd sm)(unat base_ptr + 256 := snd sm (unat base_ptr)))"

definition copying_externals :: "unit externals" where
  "copying_externals = (spec_externals (\<lambda>src n. src))\<lparr>ExecutePacket_effect := copy_first_byte\<rparr>"

text \<open>A decompressor that stores its source bytes unchanged, whatever size is declared.\<close>

definition stored :: "byte list \<Rightarrow> nat \<Rightarrow> byte list" where
  "stored src n = src"

text \<open>
  The player as its constructor leaves it (frame 0, command \<open>-1\<close>), over a given trace and
  frame index, with zeroed physical memory and an idle command processor.
\<close>

definition new_player :: "byte list \<Rightarrow> Frame list \<Rightarrow> unit TracePlayer" where
  "new_player buf fs =
     \<lparr>trace_buffer = buf, frames = fs,
      current_frame_index = 0, current_command_index = - 1,
      playing_trace = False,
      player_start_ptr = 0, player_target_ptr = 0, player_current_ptr = 0,
      physical_memory = (\<lambda>a. 0), swap_mode = kNormal, backend_state = (),
      backend_calls = [], call_queue = []\<rparr>"

text \<open>\<open>PacketStart{base 0x1000, count 1, AA}, PacketEnd, Event{Swap},
  PacketStart{base 0x2000, count 1, BB}, PacketEnd\<close>.\<close>

definition swap_between_packets :: "byte list" where
  "swap_between_packets =
     [4,0,0,0, 0,0x10,0,0, 1,0,0,0, 0xAA,0,0,0,
      5,0,0,0,
      8,0,0,0, 0,0,0,0,
      4,0,0,0, 0,0x20,0,0, 1,0,0,0, 0xBB,0,0,0,
      5,0,0,0]"

text \<open>\<open>Event{Swap}, PacketEnd\<close>.\<close>

definition swap_then_packet_end :: "byte list" where
  "swap_then_packet_end = [8,0,0,0, 0,0,0,0,  5,0,0,0]"

text \<open>One record with tag 9, which names no kind.\<close>

definition unknown_tag :: "byte list" where
  "unknown_tag = [9,0,0,0]"

text \<open>\<open>PacketStart{base 0x1000, count 0}, PacketStart{base 0x2000, count 0}, PacketEnd,
  PacketEnd\<close>.\<close>

definition nested_packets :: "byte list" where
  "nested_packets =
     [4,0,0,0, 0,0x10,0,0, 0,0,0,0,
      4,0,0,0, 0,0x20,0,0, 0,0,0,0,
      5,0,0,0,
      5,0,0,0]"

text \<open>\<open>MemoryRead{base 0x2000, length 4, full_length n}\<close> with payload \<open>01 02 03 04\<close>.\<close>

definition memory_read :: "byte \<Rightarrow> byte list" where
  "memory_read n = [6,0,0,0, 0,0x20,0,0, 4,0,0,0, n,0,0,0,  1,2,3,4]"

text \<open>
  Two frame indexes over the trace \<open>swap_between_packets\<close>, whose replay as a whole frame
  under \<^verbatim>\<open>kBreakOnSwap\<close> returns at its last \<open>PacketEnd\<close>, the end of the frame. In
  \<open>record_frame\<close> every record is a command, as in the spec's table of commands: the first
  command is a \<open>PacketStart\<close> and ends at 16, the second its \<open>PacketEnd\<close>, ending at 20. In
  \<open>packet_frame\<close> a command ends with a \<open>PacketEnd\<close>: the first command is the first packet
  and ends at 20, the second is the rest of the frame.
\<close>

definition record_frame :: Frame where
  "record_frame =
     \<lparr>start_ptr = 0, end_ptr = 48,
      commands = [\<lparr>command_end_ptr = 16\<rparr>, \<lparr>command_end_ptr = 20\<rparr>, \<lparr>command_end_ptr = 28\<rparr>,
                  \<lparr>command_end_ptr = 44\<rparr>, \<lparr>command_end_ptr = 48\<rparr>]\<rparr>"

definition packet_frame :: Frame where
  "packet_frame =
     \<lparr>start_ptr = 0, end_ptr = 48,
      commands = [\<lparr>command_end_ptr = 20\<rparr>, \<lparr>command_end_ptr = 48\<rparr>]\<rparr>"

text \<open>
  The second frame of the trace \<open>swap_between_packets @ swap_between_packets\<close>, whose first
  frame is \<open>packet_frame\<close>: the same records again, from offset 48.
\<close>

definition later_packet_frame :: Frame where
  "later_packet_frame =
     \<lparr>start_ptr = 48, end_ptr = 96,
      commands = [\<lparr>command_end_ptr = 68\<rparr>, \<lparr>command_end_ptr = 96\<rparr>]\<rparr>"

text \<open>
  A frame of two commands: \<open>MemoryRead{base 0x20, length 1}\<close> with payload \<open>AA\<close>, \<open>PacketEnd\<close>
  (ending at 21), and \<open>Event{Swap}\<close>, \<open>MemoryRead{base 0x21, length 1}\<close> with payload \<open>BB\<close>,
  \<open>PacketEnd\<close> (ending at 50).
\<close>

definition swap_last_trace :: "byte list" where
  "swap_last_trace =
     [6,0,0,0, 0x20,0,0,0, 1,0,0,0, 0,0,0,0, 0xAA,
      5,0,0,0,
      8,0,0,0, 0,0,0,0,
      6,0,0,0, 0x21,0,0,0, 1,0,0,0, 0,0,0,0, 0xBB,
      5,0,0,0]"

definition swap_last_frame :: Frame where
  "swap_last_frame =
     \<lparr>start_ptr = 0, end_ptr = 50,
      commands = [\<lparr>command_end_ptr = 21\<rparr>, \<lparr>command_end_ptr = 50\<rparr>]\<rparr>"

subsection \<open>Notions used in the statements and proofs\<close>

text \<open>The kind of the record at an offset of the trace, when the tag there names one.\<close>

definition tag_at :: "'s externals \<Rightarrow> byte list \<Rightarrow> nat \<Rightarrow> TraceCommandType option" where
  "tag_at X buf a = Option.bind (load_u32 buf a) (command_type X)"

text \<open>
  What decides how the loop goes on and what it does to memory: the loop's locals, the
  trace, physical memory, the command processor's state and the swap mode.
\<close>

type_synonym 's machine = "byte list \<times> (nat \<Rightarrow> byte) \<times> 's \<times> SwapMode"

definition machine :: "'s TracePlayer \<Rightarrow> 's machine" where
  "machine p = (trace_buffer p, physical_memory p, backend_state p, swap_mode p)"

definition control :: "replay_locals \<Rightarrow> 's TracePlayer \<Rightarrow> replay_locals \<times> 's machine" where
  "control l p = (l, machine p)"

fun iteration_view :: "'s iteration \<Rightarrow> (replay_locals \<times> 's machine) + 's machine" where
  "iteration_view (Continue l p) = Inl (control l p)"
| "iteration_view (Return p) = Inr (machine p)"

fun exit_view :: "'s loop_exit \<Rightarrow> (replay_locals \<times> 's machine) + 's machine" where
  "exit_view (Exhausted l p) = Inl (control l p)"
| "exit_view (Returned p) = Inr (machine p)"

text \<open>Physical memory when \<^verbatim>\<open>PlayTraceOnThread\<close> has returned after leaving its loop this way.\<close>

definition final_memory :: "'s externals \<Rightarrow> 's loop_exit \<Rightarrow> nat \<Rightarrow> byte" where
  "final_memory X e =
     (case e of
        Returned p \<Rightarrow> physical_memory p
      | Exhausted l p \<Rightarrow> physical_memory (leave_replay X p))"

text \<open>
  The replays of the consecutive ranges that start at \<open>a\<close> and end at the offsets \<open>bs\<close>, as
  \<^verbatim>\<open>SeekCommand\<close> submits them when stepping from command to command.
\<close>

fun delta_requests :: "nat \<Rightarrow> nat list \<Rightarrow> play_request list" where
  "delta_requests a [] = []"
| "delta_requests a (b # bs) =
     \<lparr>req_data = a, req_size = b - a, req_mode = kBreakOnSwap\<rparr> # delta_requests b bs"

text \<open>
  A caller's seeks followed by the run of the queue they filled: what physical memory and the
  command processor have seen once the command processor's thread has caught up.
\<close>

definition seek_and_run ::
  "'s externals \<Rightarrow> int list \<Rightarrow> 's TracePlayer \<Rightarrow> (fault + 's TracePlayer) option" where
  "seek_and_run X cs p =
     (case seek_commands cs p of Inl e \<Rightarrow> Some (Inl e) | Inr p' \<Rightarrow> run_queue X p')"

section \<open>Properties\<close>

subsection \<open>Auxiliary facts\<close>

lemma ptr_diff_le: "b \<le> a \<Longrightarrow> ptr_diff a b = a - b"
  by (simp add: ptr_diff_def)

lemma play_loop_run:
  "trace_ptr l < target \<Longrightarrow>
   play_loop X m target l p =
     (case loop_body X m l p of
        None \<Rightarrow> Some (Inl ReadOutsideTrace)
      | Some (Continue l' p') \<Rightarrow> play_loop X m target l' p'
      | Some (Return p') \<Rightarrow> Some (Inr (Returned p')))"
  by (subst play_loop.simps) simp

lemma play_loop_exhausted:
  "\<not> trace_ptr l < target \<Longrightarrow> play_loop X m target l p = Some (Inr (Exhausted l p))"
  by (subst play_loop.simps) simp

lemmas replay_defs =
  PlayTraceOnThread_def enter_replay_def initial_locals_def leave_replay_def
  loop_body_def load_u32_def read_bytes_def
  command_processor_ExecutePacket_def command_processor_IssueSwap_def

lemmas spec_defs = spec_externals_def spec_command_type_def new_player_def

lemma tag_atD:
  "tag_at X buf a = Some k \<Longrightarrow> \<exists>tag. load_u32 buf a = Some tag \<and> command_type X tag = Some k"
  by (auto simp: tag_at_def split: Option.bind_splits)

lemma loop_body_unknown:
  "load_u32 (trace_buffer p) (trace_ptr l) = Some tag \<Longrightarrow> command_type X tag = None \<Longrightarrow>
   loop_body X m l p = Some (Continue l (p\<lparr>player_current_ptr := trace_ptr l\<rparr>))"
  by (simp add: loop_body_def Let_def)

lemma loop_body_kPacketStart:
  "tag_at X (trace_buffer p) (trace_ptr l) = Some kPacketStart \<Longrightarrow>
   load_u32 (trace_buffer p) (trace_ptr l + offsetof_base_ptr X kPacketStart) = Some base_ptr \<Longrightarrow>
   load_u32 (trace_buffer p) (trace_ptr l + offsetof_count X kPacketStart) = Some count \<Longrightarrow>
   read_bytes (trace_buffer p) (trace_ptr l + sizeof_command X kPacketStart) (unat (count * 4))
     = Some src \<Longrightarrow>
   loop_body X m l p =
     Some (Continue
       (l\<lparr>trace_ptr := trace_ptr l + sizeof_command X kPacketStart + unat (count * 4),
           pending_packet := Some (base_ptr, count)\<rparr>)
       (p\<lparr>player_current_ptr := trace_ptr l,
           physical_memory :=
             store_bytes (physical_memory p) (TranslatePhysical X base_ptr) src\<rparr>))"
  by (auto simp: loop_body_def Let_def dest!: tag_atD)

lemma loop_body_kPacketEnd:
  "tag_at X (trace_buffer p) (trace_ptr l) = Some kPacketEnd \<Longrightarrow>
   loop_body X m l p =
     (let p1 = (case pending_packet l of
                  Some (base_ptr, count) \<Rightarrow>
                    command_processor_ExecutePacket X base_ptr count
                      (p\<lparr>player_current_ptr := trace_ptr l\<rparr>)
                | None \<Rightarrow> p\<lparr>player_current_ptr := trace_ptr l\<rparr>)
      in if pending_break l then Some (Return p1)
         else Some (Continue
                (l\<lparr>trace_ptr := trace_ptr l + sizeof_command X kPacketEnd,
                    pending_packet := None\<rparr>) p1))"
  by (auto simp: loop_body_def Let_def dest!: tag_atD split: option.splits)

lemma loop_body_kEvent:
  "tag_at X (trace_buffer p) (trace_ptr l) = Some kEvent \<Longrightarrow>
   load_u32 (trace_buffer p) (trace_ptr l + offsetof_event_type X) = Some event_type \<Longrightarrow>
   loop_body X m l p =
     Some (Continue
       (l\<lparr>trace_ptr := trace_ptr l + sizeof_command X kEvent,
           pending_break := (if event_type = kSwap X \<and> m = kBreakOnSwap then True
                             else pending_break l)\<rparr>)
       (p\<lparr>player_current_ptr := trace_ptr l\<rparr>))"
  by (auto simp: loop_body_def Let_def dest!: tag_atD)

lemma loop_body_kMemoryRead:
  "tag_at X (trace_buffer p) (trace_ptr l) = Some kMemoryRead \<Longrightarrow>
   load_u32 (trace_buffer p) (trace_ptr l + offsetof_base_ptr X kMemoryRead) = Some base_ptr \<Longrightarrow>
   load_u32 (trace_buffer p) (trace_ptr l + offsetof_length X kMemoryRead) = Some len \<Longrightarrow>
   load_u32 (trace_buffer p) (trace_ptr l + offsetof_full_length X) = Some full_length \<Longrightarrow>
   read_bytes (trace_buffer p) (trace_ptr l + sizeof_command X kMemoryRead) (unat len) = Some src \<Longrightarrow>
   loop_body X m l p =
     Some (Continue
       (l\<lparr>trace_ptr := trace_ptr l + sizeof_command X kMemoryRead + unat len\<rparr>)
       (p\<lparr>player_current_ptr := trace_ptr l,
           physical_memory :=
             store_bytes (physical_memory p) (TranslatePhysical X base_ptr)
               (if full_length \<noteq> 0 then DecompressMemory X src (unat full_length) else src)\<rparr>))"
  by (auto simp: loop_body_def Let_def dest!: tag_atD)

lemma play_loop_unknown_tag:
  assumes "play_loop X m target l p = Some y"
  shows "\<not> (trace_ptr l < target \<and>
            (\<exists>tag. load_u32 (trace_buffer p) (trace_ptr l) = Some tag \<and> command_type X tag = None))"
proof (induct rule: play_loop.raw_induct [OF _ assms])
  case (1 loop X m target l p y)
  show ?case
  proof
    assume stuck: "trace_ptr l < target \<and>
       (\<exists>tag. load_u32 (trace_buffer p) (trace_ptr l) = Some tag \<and> command_type X tag = None)"
    then obtain tag where tag: "load_u32 (trace_buffer p) (trace_ptr l) = Some tag"
      "command_type X tag = None" by blast
    from stuck 1(2) tag
    have again: "loop X m target l (p\<lparr>player_current_ptr := trace_ptr l\<rparr>) = Some y"
      by (simp add: loop_body_unknown)
    have "\<not> (trace_ptr l < target \<and>
            (\<exists>tag. load_u32 (trace_buffer (p\<lparr>player_current_ptr := trace_ptr l\<rparr>)) (trace_ptr l)
                  = Some tag \<and> command_type X tag = None))"
      by (rule 1(1) [OF again])
    with stuck show False by simp
  qed
qed

lemma play_loop_diverges:
  "trace_ptr l < target \<Longrightarrow> load_u32 (trace_buffer p) (trace_ptr l) = Some tag \<Longrightarrow>
   command_type X tag = None \<Longrightarrow> play_loop X m target l p = None"
  using play_loop_unknown_tag [of X m target l p] by (cases "play_loop X m target l p") auto

lemma SeekCommand_body:
  assumes "target_command \<noteq> current_command_index p"
    and "target_command \<noteq> - 1"
    and "current_frame p = Some (Inr f)"
    and "0 \<le> target_command" and "target_command < int (length (commands f))"
    and "start_ptr f \<le> command_end_ptr (commands f ! nat target_command)"
  shows "SeekCommand target_command p =
      (if target_command \<noteq> 0 \<and> current_command_index p = target_command - 1
       then Inr (PlayTrace (command_end_ptr (commands f ! nat (target_command - 1)))
                   (ptr_diff (command_end_ptr (commands f ! nat target_command))
                      (command_end_ptr (commands f ! nat (target_command - 1))))
                   kBreakOnSwap (p\<lparr>current_command_index := target_command\<rparr>))
       else Inr (PlayTrace (start_ptr f)
                   (ptr_diff (command_end_ptr (commands f ! nat target_command)) (start_ptr f))
                   kBreakOnSwap (p\<lparr>current_command_index := target_command\<rparr>)))"
proof -
  have "current_frame (p\<lparr>current_command_index := target_command\<rparr>) = current_frame p"
    by (simp add: current_frame_def frame_count_def frame_def)
  then have cf: "current_frame (p\<lparr>current_command_index := target_command\<rparr>) = Some (Inr f)"
    using assms(3) by simp
  have cmd: "command_at f target_command = Inr (commands f ! nat target_command)"
    using assms(4,5) by (simp add: command_at_def)
  have prev: "target_command \<noteq> 0 \<Longrightarrow>
      command_at f (target_command - 1) = Inr (commands f ! nat (target_command - 1))"
    using assms(4,5) by (simp add: command_at_def)
  show ?thesis
    using assms(1,2,6) cf cmd prev unfolding SeekCommand_def Let_def
    by simp
qed

subsection \<open>The cursor\<close>

text \<open>
  C10. \<^verbatim>\<open>current_frame()\<close> returns \<^verbatim>\<open>nullptr\<close> exactly when \<^verbatim>\<open>current_frame_index_\<close> is
  strictly greater than \<^verbatim>\<open>frame_count()\<close>. When the index equals \<^verbatim>\<open>frame_count()\<close>, one past
  the last frame, the result is not \<^verbatim>\<open>nullptr\<close> but the frame lookup at that index, which is
  outside the index of frames.
\<close>

theorem current_frame_null_only_beyond_count:
  "(current_frame p = None) = (frame_count p < current_frame_index p)
   \<and> current_frame (p\<lparr>current_frame_index := frame_count p\<rparr>) = Some (frame p (frame_count p))
   \<and> frame p (frame_count p) = Inl IndexOutOfRange"
  by (simp add: current_frame_def frame_count_def frame_def)

theorem current_frame_null_only_beyond_count_witness:
  "current_frame ((new_player swap_last_trace [swap_last_frame])\<lparr>current_frame_index := 1\<rparr>)
     = Some (Inl IndexOutOfRange)
   \<and> current_frame ((new_player swap_last_trace [swap_last_frame])\<lparr>current_frame_index := 2\<rparr>)
     = None"
proof -
  let ?p = "new_player swap_last_trace [swap_last_frame]"
  have fc: "frame_count ?p = 1" "frame_count (?p\<lparr>current_frame_index := 2\<rparr>) = 1"
    by (simp_all add: frame_count_def new_player_def)
  from current_frame_null_only_beyond_count [of ?p]
  have "current_frame (?p\<lparr>current_frame_index := 1\<rparr>) = Some (Inl IndexOutOfRange)"
    unfolding fc by simp
  moreover from current_frame_null_only_beyond_count [of "?p\<lparr>current_frame_index := 2\<rparr>"]
  have "current_frame (?p\<lparr>current_frame_index := 2\<rparr>) = None"
    unfolding fc by simp
  ultimately show ?thesis by simp
qed

text \<open>
  C9. \<^verbatim>\<open>SeekFrame\<close> with the current frame index as target, and \<^verbatim>\<open>SeekCommand\<close> with the
  current command index as target, change nothing: no replay is submitted and every field of
  the player is as before.
\<close>

theorem seek_same_target_is_noop:
  "SeekFrame (current_frame_index p) p = Inr p
   \<and> SeekCommand (current_command_index p) p = Inr p"
  by (simp add: SeekFrame_def SeekCommand_def)

theorem seek_same_target_is_noop_witness:
  "SeekFrame 0 (new_player swap_last_trace [swap_last_frame])
     = Inr (new_player swap_last_trace [swap_last_frame])
   \<and> SeekCommand (- 1) (new_player swap_last_trace [swap_last_frame])
     = Inr (new_player swap_last_trace [swap_last_frame])"
  using seek_same_target_is_noop [of "new_player swap_last_trace [swap_last_frame]"]
  by (simp add: new_player_def)

text \<open>
  C6. For a target frame \<open>F\<close> of the frame index other than the current one (with
  \<open>start_ptr \<le> end_ptr\<close>, as the function asserts), \<^verbatim>\<open>SeekFrame(F)\<close> sets the frame index to
  \<open>F\<close>, the command index to that of the frame's last command, and submits exactly one replay,
  under \<^verbatim>\<open>kBreakOnSwap\<close>, of the whole frame \<open>[start_ptr, end_ptr)\<close>; nothing else changes, and
  \<^verbatim>\<open>current_frame()\<close> then returns frame \<open>F\<close>.
\<close>

theorem SeekFrame_replays_whole_frame:
  assumes "target_frame \<noteq> current_frame_index p"
    and "0 \<le> target_frame" and "target_frame < frame_count p"
    and "f = frames p ! nat target_frame"
    and "start_ptr f \<le> end_ptr f"
    and "p' = p\<lparr>current_frame_index := target_frame,
                current_command_index := int (length (commands f)) - 1,
                call_queue := call_queue p @
                  [\<lparr>req_data = start_ptr f, req_size = end_ptr f - start_ptr f,
                    req_mode = kBreakOnSwap\<rparr>]\<rparr>"
  shows "SeekFrame target_frame p = Inr p'
     \<and> current_frame p' = Some (Inr f)
     \<and> req_data (last (call_queue p')) + req_size (last (call_queue p')) = end_ptr f"
  using assms
  by (simp add: SeekFrame_def current_frame_def frame_count_def frame_def PlayTrace_def
      ptr_diff_le Let_def)

theorem SeekFrame_replays_whole_frame_witness:
  "SeekFrame 1
     (new_player (swap_between_packets @ swap_between_packets) [packet_frame, later_packet_frame]) =
     Inr ((new_player (swap_between_packets @ swap_between_packets)
             [packet_frame, later_packet_frame])
            \<lparr>current_frame_index := 1, current_command_index := 1,
             call_queue := [\<lparr>req_data = 48, req_size = 48, req_mode = kBreakOnSwap\<rparr>]\<rparr>)"
  using SeekFrame_replays_whole_frame
    [of 1 "new_player (swap_between_packets @ swap_between_packets)
             [packet_frame, later_packet_frame]"
        later_packet_frame
        "(new_player (swap_between_packets @ swap_between_packets)
             [packet_frame, later_packet_frame])
            \<lparr>current_frame_index := 1, current_command_index := 1,
             call_queue := [\<lparr>req_data = 48, req_size = 48, req_mode = kBreakOnSwap\<rparr>]\<rparr>"]
  by (simp add: new_player_def frame_count_def later_packet_frame_def)

text \<open>
  C7. For a target other than the current command index, \<^verbatim>\<open>SeekCommand(target)\<close> sets the
  command index to the target. For target \<open>-1\<close> nothing is submitted. For a command of the
  current frame (whose offsets are ordered, as the function asserts for the frame start):
  when there is a previously-current command (\<open>0 \<le> previous\<close>) and the target is the one
  right after it, one replay of the delta range from the previous command's end to the
  target's end is submitted; for every other target, one replay from the frame's start to
  the target's end. Both replays run under \<^verbatim>\<open>kBreakOnSwap\<close>. (From \<open>-1\<close>, where no command is
  current, the step to command \<open>0\<close> is of the second kind.)
\<close>

theorem SeekCommand_paths:
  assumes "target_command \<noteq> current_command_index p"
    and "current_frame p = Some (Inr f)"
    and "target_command = - 1 \<or> (0 \<le> target_command \<and> target_command < int (length (commands f)))"
    and "previous = current_command_index p"
    and "command = commands f ! nat target_command"
    and "previous_command = commands f ! nat (target_command - 1)"
    and "target_command \<noteq> - 1 \<Longrightarrow> start_ptr f \<le> command_end_ptr command"
    and "0 < target_command \<Longrightarrow> command_end_ptr previous_command \<le> command_end_ptr command"
    and "p1 = p\<lparr>current_command_index := target_command\<rparr>"
  shows "SeekCommand target_command p =
     Inr (if target_command = - 1 then p1
          else if 0 \<le> previous \<and> target_command = previous + 1
          then p1\<lparr>call_queue := call_queue p @
                 [\<lparr>req_data = command_end_ptr previous_command,
                   req_size = command_end_ptr command - command_end_ptr previous_command,
                   req_mode = kBreakOnSwap\<rparr>]\<rparr>
          else p1\<lparr>call_queue := call_queue p @
                 [\<lparr>req_data = start_ptr f,
                   req_size = command_end_ptr command - start_ptr f,
                   req_mode = kBreakOnSwap\<rparr>]\<rparr>)"
proof (cases "target_command = - 1")
  case True
  then show ?thesis using assms by (simp add: SeekCommand_def)
next
  case False
  with assms(3) have rng: "0 \<le> target_command" "target_command < int (length (commands f))"
    by auto
  have le: "start_ptr f \<le> command_end_ptr (commands f ! nat target_command)"
    using assms(5,7) False by simp
  note body = SeekCommand_body [OF assms(1) False assms(2) rng le]
  show ?thesis
  proof (cases "0 \<le> previous \<and> target_command = previous + 1")
    case True
    then have pos: "0 < target_command" and eq: "current_command_index p = target_command - 1"
      using assms(4) by simp_all
    have ord: "command_end_ptr previous_command \<le> command_end_ptr command"
      using assms(8) pos by simp
    have cond: "target_command \<noteq> 0 \<and> current_command_index p = target_command - 1"
      using pos eq by simp
    have "SeekCommand target_command p =
        Inr (PlayTrace (command_end_ptr previous_command)
               (ptr_diff (command_end_ptr command) (command_end_ptr previous_command))
               kBreakOnSwap p1)"
      by (simp only: body if_P [OF cond] assms(5,6,9))
    then show ?thesis
      by (simp only: if_not_P [OF False] if_P [OF True])
         (simp add: PlayTrace_def ptr_diff_le ord assms(9))
  next
    case nonincr: False
    then have cond: "\<not> (target_command \<noteq> 0 \<and> current_command_index p = target_command - 1)"
      using rng assms(4) by auto
    have "SeekCommand target_command p =
        Inr (PlayTrace (start_ptr f) (ptr_diff (command_end_ptr command) (start_ptr f))
               kBreakOnSwap p1)"
      by (simp only: body if_not_P [OF cond] assms(5,9))
    then show ?thesis
      by (simp only: if_not_P [OF False] if_not_P [OF nonincr])
         (simp add: PlayTrace_def ptr_diff_le le [folded assms(5)] assms(9))
  qed
qed

theorem SeekCommand_paths_witness:
  "SeekCommand 1 ((new_player swap_last_trace [swap_last_frame])\<lparr>current_command_index := 0\<rparr>) =
     Inr ((new_player swap_last_trace [swap_last_frame])
            \<lparr>current_command_index := 1,
             call_queue := [\<lparr>req_data = 21, req_size = 29, req_mode = kBreakOnSwap\<rparr>]\<rparr>)
   \<and> SeekCommand 1 (new_player swap_last_trace [swap_last_frame]) =
     Inr ((new_player swap_last_trace [swap_last_frame])
            \<lparr>current_command_index := 1,
             call_queue := [\<lparr>req_data = 0, req_size = 50, req_mode = kBreakOnSwap\<rparr>]\<rparr>)
   \<and> SeekCommand 0 (new_player swap_last_trace [swap_last_frame]) =
     Inr ((new_player swap_last_trace [swap_last_frame])
            \<lparr>current_command_index := 0,
             call_queue := [\<lparr>req_data = 0, req_size = 21, req_mode = kBreakOnSwap\<rparr>]\<rparr>)"
proof -
  let ?p = "new_player swap_last_trace [swap_last_frame]"
  let ?q = "?p\<lparr>current_command_index := 0\<rparr>"
  let ?f = swap_last_frame
  have cf: "current_frame ?p = Some (Inr ?f)" "current_frame ?q = Some (Inr ?f)"
    by (simp_all add: current_frame_def frame_count_def frame_def new_player_def)
  have idx: "current_command_index ?p = - 1" "current_command_index ?q = 0"
    "call_queue ?p = []" "call_queue ?q = []"
    by (simp_all add: new_player_def)
  have a: "SeekCommand 1 ?q =
     Inr (?q\<lparr>current_command_index := 1,
             call_queue := [\<lparr>req_data = 21, req_size = 29, req_mode = kBreakOnSwap\<rparr>]\<rparr>)"
    using SeekCommand_paths [of 1 ?q ?f, OF _ cf(2) _ refl refl refl _ _ refl]
    by (simp add: swap_last_frame_def new_player_def)
  have b: "SeekCommand 1 ?p =
     Inr (?p\<lparr>current_command_index := 1,
             call_queue := [\<lparr>req_data = 0, req_size = 50, req_mode = kBreakOnSwap\<rparr>]\<rparr>)"
    using SeekCommand_paths [of 1 ?p ?f, OF _ cf(1) _ refl refl refl _ _ refl]
    by (simp add: swap_last_frame_def new_player_def)
  have c: "SeekCommand 0 ?p =
     Inr (?p\<lparr>current_command_index := 0,
             call_queue := [\<lparr>req_data = 0, req_size = 21, req_mode = kBreakOnSwap\<rparr>]\<rparr>)"
    using SeekCommand_paths [of 0 ?p ?f, OF _ cf(1) _ refl refl refl _ _ refl]
    by (simp add: swap_last_frame_def new_player_def)
  from a b c show ?thesis by simp
qed

subsection \<open>The replay\<close>

text \<open>
  C2 as stated fails: with \<open>Event{Swap}\<close> between two packets the second packet is executed
  too. On the trace \<open>swap_between_packets\<close> both \<^verbatim>\<open>ExecutePacket\<close> calls are made, and the last
  record processed is the second \<open>PacketEnd\<close>, at offset 44.
\<close>

theorem swap_between_packets_second_executes:
  "outcome (\<lambda>p. (backend_calls p, player_current_ptr p))
     (PlayTraceOnThread (spec_externals stored) 0 48 kBreakOnSwap
        (new_player swap_between_packets [])) =
   Some (Inr ([ExecutePacket 0x1000 1, ExecutePacket 0x2000 1], 44))"
  by (simp add: outcome_def replay_defs spec_defs play_loop_run play_loop_exhausted
      swap_between_packets_def)

text \<open>
  C2, amended. Under \<^verbatim>\<open>kBreakOnSwap\<close>, for every trace range that starts with
  \<open>PacketStart, PacketEnd, Event{Swap}, PacketStart, PacketEnd\<close>, the replay executes the first
  packet, then materialises and executes the second packet, and returns at the second
  packet's \<open>PacketEnd\<close> (the first \<open>PacketEnd\<close> after the event), after that packet's
  execution; no swap is issued, and the swap mode and \<open>playing_trace\<close> stay as the replay set
  them.
\<close>

theorem swap_between_packets_stops_after_second:
  fixes X :: "'s externals" and p :: "'s TracePlayer" and data size_t :: nat
    and baseA countA baseB countB :: uint32_t
  defines "buf \<equiv> trace_buffer p"
  defines "a1 \<equiv> data + sizeof_command X kPacketStart + unat (countA * 4)"
  defines "a2 \<equiv> a1 + sizeof_command X kPacketEnd"
  defines "a3 \<equiv> a2 + sizeof_command X kEvent"
  defines "a4 \<equiv> a3 + sizeof_command X kPacketStart + unat (countB * 4)"
  defines "first_packet \<equiv>
    ExecutePacket_effect X baseA countA kIgnored
      (backend_state p,
       store_bytes (physical_memory p) (TranslatePhysical X baseA)
         (take (unat (countA * 4)) (drop (data + sizeof_command X kPacketStart) buf)))"
  defines "second_packet \<equiv>
    ExecutePacket_effect X baseB countB kIgnored
      (fst first_packet,
       store_bytes (snd first_packet) (TranslatePhysical X baseB)
         (take (unat (countB * 4)) (drop (a3 + sizeof_command X kPacketStart) buf)))"
  assumes range: "data + size_t \<le> length buf"
    and first_start: "tag_at X buf data = Some kPacketStart"
      "load_u32 buf (data + offsetof_base_ptr X kPacketStart) = Some baseA"
      "load_u32 buf (data + offsetof_count X kPacketStart) = Some countA"
    and first_end: "tag_at X buf a1 = Some kPacketEnd"
    and swap_event: "tag_at X buf a2 = Some kEvent"
      "load_u32 buf (a2 + offsetof_event_type X) = Some (kSwap X)"
    and second_start: "tag_at X buf a3 = Some kPacketStart"
      "load_u32 buf (a3 + offsetof_base_ptr X kPacketStart) = Some baseB"
      "load_u32 buf (a3 + offsetof_count X kPacketStart) = Some countB"
    and second_end: "tag_at X buf a4 = Some kPacketEnd"
    and inside: "a4 < data + size_t"
  shows "PlayTraceOnThread X data size_t kBreakOnSwap p =
     Some (Inr (p\<lparr>swap_mode := kIgnored,
                  player_start_ptr := data,
                  player_target_ptr := data + size_t,
                  player_current_ptr := a4,
                  playing_trace := True,
                  physical_memory := snd second_packet,
                  backend_state := fst second_packet,
                  backend_calls :=
                    backend_calls p @ [ExecutePacket baseA countA, ExecutePacket baseB countB]\<rparr>))"
proof -
  let ?t = "data + size_t"
  let ?m = kBreakOnSwap
  define wordsA where
    "wordsA = take (unat (countA * 4)) (drop (data + sizeof_command X kPacketStart) buf)"
  define wordsB where
    "wordsB = take (unat (countB * 4)) (drop (a3 + sizeof_command X kPacketStart) buf)"
  define l0 where "l0 = initial_locals data"
  define p0 where "p0 = enter_replay data size_t p"
  have buf0: "trace_buffer p0 = buf" by (simp add: p0_def enter_replay_def buf_def)
  have order: "data \<le> a1" "a1 \<le> a2" "a2 \<le> a3" "a3 \<le> a4"
    by (simp_all add: a1_def a2_def a3_def a4_def)
  have lt: "data < ?t" "a1 < ?t" "a2 < ?t" "a3 < ?t" using order inside by simp_all
  have r1: "read_bytes buf (data + sizeof_command X kPacketStart) (unat (countA * 4)) = Some wordsA"
    using order lt range by (simp add: read_bytes_def wordsA_def a1_def)
  have r2: "read_bytes buf (a3 + sizeof_command X kPacketStart) (unat (countB * 4)) = Some wordsB"
    using inside range by (simp add: read_bytes_def wordsB_def a4_def)
  define l1 where "l1 = l0\<lparr>trace_ptr := a1, pending_packet := Some (baseA, countA)\<rparr>"
  define p1 where "p1 = p0\<lparr>player_current_ptr := data,
      physical_memory := store_bytes (physical_memory p0) (TranslatePhysical X baseA) wordsA\<rparr>"
  have s1: "loop_body X ?m l0 p0 = Some (Continue l1 p1)"
    using first_start r1
    by (simp add: loop_body_kPacketStart l0_def initial_locals_def buf0 l1_def p1_def a1_def)
  define l2 where "l2 = l1\<lparr>trace_ptr := a2, pending_packet := None\<rparr>"
  define p2 where
    "p2 = command_processor_ExecutePacket X baseA countA (p1\<lparr>player_current_ptr := a1\<rparr>)"
  have buf1: "trace_buffer p1 = buf" by (simp add: p1_def buf0)
  have s2: "loop_body X ?m l1 p1 = Some (Continue l2 p2)"
    using first_end
    by (simp add: loop_body_kPacketEnd l1_def l0_def initial_locals_def buf1 l2_def p2_def a2_def)
  define l3 where "l3 = l2\<lparr>trace_ptr := a3, pending_break := True\<rparr>"
  define p3 where "p3 = p2\<lparr>player_current_ptr := a2\<rparr>"
  have buf2: "trace_buffer p2 = buf"
    by (simp add: p2_def buf1 command_processor_ExecutePacket_def Let_def)
  have s3: "loop_body X ?m l2 p2 = Some (Continue l3 p3)"
    using swap_event
    by (simp add: loop_body_kEvent l2_def l1_def l0_def initial_locals_def buf2 l3_def p3_def
        a3_def)
  define l4 where "l4 = l3\<lparr>trace_ptr := a4, pending_packet := Some (baseB, countB)\<rparr>"
  define p4 where "p4 = p3\<lparr>player_current_ptr := a3,
      physical_memory := store_bytes (physical_memory p3) (TranslatePhysical X baseB) wordsB\<rparr>"
  have buf3: "trace_buffer p3 = buf" by (simp add: p3_def buf2)
  have s4: "loop_body X ?m l3 p3 = Some (Continue l4 p4)"
    using second_start r2
    by (simp add: loop_body_kPacketStart l3_def l2_def l1_def l0_def initial_locals_def buf3
        l4_def p4_def a4_def)
  define p5 where
    "p5 = command_processor_ExecutePacket X baseB countB (p4\<lparr>player_current_ptr := a4\<rparr>)"
  have buf4: "trace_buffer p4 = buf" by (simp add: p4_def buf3)
  have s5: "loop_body X ?m l4 p4 = Some (Return p5)"
    using second_end
    by (simp add: loop_body_kPacketEnd l4_def l3_def l2_def l1_def l0_def initial_locals_def
        buf4 p5_def)
  have "play_loop X ?m ?t l4 p4 = Some (Inr (Returned p5))"
    using inside s5 by (simp add: play_loop_run l4_def)
  then have "play_loop X ?m ?t l3 p3 = Some (Inr (Returned p5))"
    using lt s4 by (simp add: play_loop_run l3_def)
  then have "play_loop X ?m ?t l2 p2 = Some (Inr (Returned p5))"
    using lt s3 by (simp add: play_loop_run l2_def)
  then have "play_loop X ?m ?t l1 p1 = Some (Inr (Returned p5))"
    using lt s2 by (simp add: play_loop_run l1_def)
  then have "play_loop X ?m ?t l0 p0 = Some (Inr (Returned p5))"
    using lt s1 by (simp add: play_loop_run l0_def initial_locals_def)
  then have "PlayTraceOnThread X data size_t kBreakOnSwap p = Some (Inr p5)"
    using range by (simp add: PlayTraceOnThread_def l0_def p0_def buf_def)
  also have "p5 = p\<lparr>swap_mode := kIgnored,
                  player_start_ptr := data,
                  player_target_ptr := data + size_t,
                  player_current_ptr := a4,
                  playing_trace := True,
                  physical_memory := snd second_packet,
                  backend_state := fst second_packet,
                  backend_calls :=
                    backend_calls p @ [ExecutePacket baseA countA, ExecutePacket baseB countB]\<rparr>"
    by (simp add: p5_def p4_def p3_def p2_def p1_def p0_def enter_replay_def
        command_processor_ExecutePacket_def Let_def first_packet_def second_packet_def
        wordsA_def wordsB_def)
  finally show ?thesis .
qed

theorem swap_between_packets_stops_after_second_witness:
  "PlayTraceOnThread (spec_externals stored) 0 48 kBreakOnSwap
     (new_player swap_between_packets []) =
   Some (Inr ((new_player swap_between_packets [])
     \<lparr>swap_mode := kIgnored, player_start_ptr := 0, player_target_ptr := 48,
      player_current_ptr := 44, playing_trace := True,
      physical_memory :=
        store_bytes (store_bytes (\<lambda>a. 0) 0x1000 [0xAA, 0, 0, 0]) 0x2000 [0xBB, 0, 0, 0],
      backend_calls := [ExecutePacket 0x1000 1, ExecutePacket 0x2000 1]\<rparr>))"
proof -
  let ?X = "spec_externals stored"
  let ?p = "new_player swap_between_packets []"
  have buf: "trace_buffer ?p = swap_between_packets" by (simp add: new_player_def)
  have X: "sizeof_command ?X = spec_sizeof" "offsetof_base_ptr ?X kPacketStart = 4"
    "offsetof_count ?X kPacketStart = 8" "offsetof_event_type ?X = 4" "kSwap ?X = 0"
    "TranslatePhysical ?X = unat"
    by (simp_all add: spec_externals_def)
  have tags: "tag_at ?X swap_between_packets 0 = Some kPacketStart"
    "tag_at ?X swap_between_packets 16 = Some kPacketEnd"
    "tag_at ?X swap_between_packets 20 = Some kEvent"
    "tag_at ?X swap_between_packets 28 = Some kPacketStart"
    "tag_at ?X swap_between_packets 44 = Some kPacketEnd"
    by (simp_all add: tag_at_def load_u32_def spec_externals_def spec_command_type_def
        swap_between_packets_def)
  have loads: "load_u32 swap_between_packets 4 = Some 0x1000"
    "load_u32 swap_between_packets 8 = Some 1"
    "load_u32 swap_between_packets 24 = Some 0"
    "load_u32 swap_between_packets 32 = Some 0x2000"
    "load_u32 swap_between_packets 36 = Some 1"
    by (simp_all add: load_u32_def swap_between_packets_def)
  have len: "length swap_between_packets = 48" by (simp add: swap_between_packets_def)
  have idle: "ExecutePacket_effect ?X = (\<lambda>base_ptr count mode sm. sm)"
    by (simp add: spec_externals_def)
  have "PlayTraceOnThread ?X 0 48 kBreakOnSwap ?p =
     Some (Inr (?p\<lparr>swap_mode := kIgnored,
                  player_start_ptr := 0,
                  player_target_ptr := 48,
                  player_current_ptr := 44,
                  playing_trace := True,
                  physical_memory :=
                    store_bytes (store_bytes (physical_memory ?p) 0x1000
                       (take 4 (drop 12 swap_between_packets)))
                      0x2000 (take 4 (drop 40 swap_between_packets)),
                  backend_state := backend_state ?p,
                  backend_calls :=
                    backend_calls ?p @ [ExecutePacket 0x1000 1, ExecutePacket 0x2000 1]\<rparr>))"
    using swap_between_packets_stops_after_second
      [where X = ?X and p = ?p and data = 0 and size_t = 48
         and baseA = "0x1000" and countA = 1 and baseB = "0x2000" and countB = 1]
    by (simp add: buf X tags loads len idle)
  then show ?thesis
    by (simp add: swap_between_packets_def new_player_def)
qed

text \<open>
  C3 fails on a triggered stop. On the trace \<open>Event{Swap}, PacketEnd\<close> under \<^verbatim>\<open>kBreakOnSwap\<close>
  the replay returns at the \<open>PacketEnd\<close> by the \<^verbatim>\<open>return\<close> inside the loop: the swap mode is
  still \<^verbatim>\<open>kIgnored\<close> and \<open>playing_trace\<close> is still true when the invocation has ended.
\<close>

theorem triggered_stop_leaves_replay_state:
  "outcome (\<lambda>p. (swap_mode p, playing_trace p, backend_calls p))
     (PlayTraceOnThread (spec_externals stored) 0 12 kBreakOnSwap
        (new_player swap_then_packet_end [])) =
   Some (Inr (kIgnored, True, []))"
  by (simp add: outcome_def replay_defs spec_defs play_loop_run play_loop_exhausted
      swap_then_packet_end_def)

text \<open>
  C4 fails on the code. A record whose tag names no kind matches no case of the switch: the
  cursor is not advanced and the loop repeats on the same record, so the replay of the one
  record with tag 9 never returns.
\<close>

theorem unknown_tag_never_returns:
  "PlayTraceOnThread (spec_externals stored) 0 4 kBreakOnSwap (new_player unknown_tag []) = None"
proof -
  have "load_u32 unknown_tag 0 = Some 9" by (simp add: load_u32_def unknown_tag_def)
  moreover have "command_type (spec_externals stored) 9 = None"
    by (simp add: spec_externals_def spec_command_type_def)
  ultimately have "play_loop (spec_externals stored) kBreakOnSwap 4 (initial_locals 0)
      (enter_replay 0 4 (new_player unknown_tag [])) = None"
    by (intro play_loop_diverges [where tag = 9])
       (simp_all add: initial_locals_def enter_replay_def new_player_def)
  then show ?thesis
    by (simp add: PlayTraceOnThread_def new_player_def unknown_tag_def)
qed

text \<open>
  C5 as stated fails: neither pairing violation aborts the replay. The trace
  \<open>nested_packets\<close> has a \<open>PacketStart\<close> while a packet is pending and a \<open>PacketEnd\<close> while none
  is; its replay runs to the end of the range, executes the second packet only and issues
  the final swap.
\<close>

theorem pairing_violations_do_not_abort:
  "outcome (\<lambda>p. (backend_calls p, playing_trace p))
     (PlayTraceOnThread (spec_externals stored) 0 32 kBreakOnSwap
        (new_player nested_packets [])) =
   Some (Inr ([ExecutePacket 0x2000 0, IssueSwap 0 1280 720], False))"
  by (simp add: outcome_def replay_defs spec_defs play_loop_run play_loop_exhausted
      nested_packets_def)

text \<open>
  C5, amended. The replay holds at most one pending packet (one variable, \<open>None\<close> or one
  packet), and neither pairing violation ends the invocation. A \<open>PacketStart\<close> decoded
  while a packet is pending copies its words to physical memory and replaces the pending
  packet; the replay goes on with the next record. A \<open>PacketEnd\<close> decoded while no packet is
  pending executes nothing: the replay returns there if a break is pending and otherwise goes
  on with the next record.
\<close>

theorem packet_pairing_is_not_checked:
  fixes X :: "'s externals" and p :: "'s TracePlayer" and l :: replay_locals
  defines "buf \<equiv> trace_buffer p"
  defines "cmd \<equiv> trace_ptr l"
  assumes "cmd < target"
  shows "(tag_at X buf cmd = Some kPacketStart \<longrightarrow>
          load_u32 buf (cmd + offsetof_base_ptr X kPacketStart) = Some base_ptr \<longrightarrow>
          load_u32 buf (cmd + offsetof_count X kPacketStart) = Some count \<longrightarrow>
          cmd + sizeof_command X kPacketStart + unat (count * 4) \<le> length buf \<longrightarrow>
          play_loop X m target l p =
            play_loop X m target
              (l\<lparr>trace_ptr := cmd + sizeof_command X kPacketStart + unat (count * 4),
                  pending_packet := Some (base_ptr, count)\<rparr>)
              (p\<lparr>player_current_ptr := cmd,
                  physical_memory :=
                    store_bytes (physical_memory p) (TranslatePhysical X base_ptr)
                      (take (unat (count * 4)) (drop (cmd + sizeof_command X kPacketStart) buf))\<rparr>))
       \<and> (tag_at X buf cmd = Some kPacketEnd \<longrightarrow> pending_packet l = None \<longrightarrow>
          play_loop X m target l p =
            (if pending_break l then Some (Inr (Returned (p\<lparr>player_current_ptr := cmd\<rparr>)))
             else play_loop X m target (l\<lparr>trace_ptr := cmd + sizeof_command X kPacketEnd\<rparr>)
                    (p\<lparr>player_current_ptr := cmd\<rparr>)))"
proof (intro conjI impI)
  assume tag: "tag_at X buf cmd = Some kPacketStart"
    and base: "load_u32 buf (cmd + offsetof_base_ptr X kPacketStart) = Some base_ptr"
    and count: "load_u32 buf (cmd + offsetof_count X kPacketStart) = Some count"
    and inside: "cmd + sizeof_command X kPacketStart + unat (count * 4) \<le> length buf"
  have "read_bytes buf (cmd + sizeof_command X kPacketStart) (unat (count * 4)) =
      Some (take (unat (count * 4)) (drop (cmd + sizeof_command X kPacketStart) buf))"
    using inside by (simp add: read_bytes_def)
  with tag base count have
    "loop_body X m l p = Some (Continue
       (l\<lparr>trace_ptr := cmd + sizeof_command X kPacketStart + unat (count * 4),
           pending_packet := Some (base_ptr, count)\<rparr>)
       (p\<lparr>player_current_ptr := cmd,
           physical_memory :=
             store_bytes (physical_memory p) (TranslatePhysical X base_ptr)
               (take (unat (count * 4)) (drop (cmd + sizeof_command X kPacketStart) buf))\<rparr>))"
    unfolding buf_def cmd_def by (rule loop_body_kPacketStart)
  with assms(3) show "play_loop X m target l p =
      play_loop X m target
        (l\<lparr>trace_ptr := cmd + sizeof_command X kPacketStart + unat (count * 4),
            pending_packet := Some (base_ptr, count)\<rparr>)
        (p\<lparr>player_current_ptr := cmd,
            physical_memory :=
              store_bytes (physical_memory p) (TranslatePhysical X base_ptr)
                (take (unat (count * 4)) (drop (cmd + sizeof_command X kPacketStart) buf))\<rparr>)"
    by (simp add: play_loop_run cmd_def)
next
  assume tag: "tag_at X buf cmd = Some kPacketEnd" and none: "pending_packet l = None"
  from tag have "loop_body X m l p =
      (if pending_break l then Some (Return (p\<lparr>player_current_ptr := cmd\<rparr>))
       else Some (Continue (l\<lparr>trace_ptr := cmd + sizeof_command X kPacketEnd,
                              pending_packet := None\<rparr>) (p\<lparr>player_current_ptr := cmd\<rparr>)))"
    unfolding buf_def cmd_def by (simp add: loop_body_kPacketEnd none)
  moreover have "l\<lparr>trace_ptr := cmd + sizeof_command X kPacketEnd, pending_packet := None\<rparr>
      = l\<lparr>trace_ptr := cmd + sizeof_command X kPacketEnd\<rparr>"
    using none by simp
  ultimately show "play_loop X m target l p =
      (if pending_break l then Some (Inr (Returned (p\<lparr>player_current_ptr := cmd\<rparr>)))
       else play_loop X m target (l\<lparr>trace_ptr := cmd + sizeof_command X kPacketEnd\<rparr>)
              (p\<lparr>player_current_ptr := cmd\<rparr>))"
    using assms(3) by (simp add: play_loop_run cmd_def)
qed

theorem packet_pairing_is_not_checked_witness:
  "play_loop (spec_externals stored) kBreakOnSwap 32
     \<lparr>trace_ptr = 12, pending_break = False, pending_packet = Some (0x1000, 0)\<rparr>
     (new_player nested_packets []) =
   play_loop (spec_externals stored) kBreakOnSwap 32
     \<lparr>trace_ptr = 24, pending_break = False, pending_packet = Some (0x2000, 0)\<rparr>
     ((new_player nested_packets [])
        \<lparr>player_current_ptr := 12,
         physical_memory := store_bytes (\<lambda>a. 0) 0x2000 []\<rparr>)
   \<and> play_loop (spec_externals stored) kBreakOnSwap 32
     \<lparr>trace_ptr = 28, pending_break = False, pending_packet = None\<rparr>
     (new_player nested_packets []) =
   play_loop (spec_externals stored) kBreakOnSwap 32
     \<lparr>trace_ptr = 32, pending_break = False, pending_packet = None\<rparr>
     ((new_player nested_packets [])\<lparr>player_current_ptr := 28\<rparr>)"
proof -
  let ?X = "spec_externals stored"
  let ?p = "new_player nested_packets []"
  let ?l = "\<lparr>trace_ptr = 12, pending_break = False, pending_packet = Some (0x1000, 0)\<rparr>"
  let ?k = "\<lparr>trace_ptr = 28, pending_break = False, pending_packet = None\<rparr>"
  have buf: "trace_buffer ?p = nested_packets" "physical_memory ?p = (\<lambda>a. 0)"
    by (simp_all add: new_player_def)
  have X: "sizeof_command ?X = spec_sizeof" "offsetof_base_ptr ?X kPacketStart = 4"
    "offsetof_count ?X kPacketStart = 8" "TranslatePhysical ?X = unat"
    by (simp_all add: spec_externals_def)
  have tags: "tag_at ?X nested_packets 12 = Some kPacketStart"
    "tag_at ?X nested_packets 28 = Some kPacketEnd"
    by (simp_all add: tag_at_def load_u32_def spec_externals_def spec_command_type_def
        nested_packets_def)
  have loads: "load_u32 nested_packets 16 = Some 0x2000" "load_u32 nested_packets 20 = Some 0"
    by (simp_all add: load_u32_def nested_packets_def)
  have len: "length nested_packets = 32" by (simp add: nested_packets_def)
  have a: "play_loop ?X kBreakOnSwap 32 ?l ?p =
      play_loop ?X kBreakOnSwap 32
        \<lparr>trace_ptr = 24, pending_break = False, pending_packet = Some (0x2000, 0)\<rparr>
        (?p\<lparr>player_current_ptr := 12, physical_memory := store_bytes (\<lambda>a. 0) 0x2000 []\<rparr>)"
    using packet_pairing_is_not_checked
      [of ?l 32 ?X ?p "0x2000" 0 kBreakOnSwap, THEN conjunct1]
    by (simp add: buf X tags loads len)
  have b: "play_loop ?X kBreakOnSwap 32 ?k ?p =
      play_loop ?X kBreakOnSwap 32
        \<lparr>trace_ptr = 32, pending_break = False, pending_packet = None\<rparr>
        (?p\<lparr>player_current_ptr := 28\<rparr>)"
    using packet_pairing_is_not_checked
      [of ?k 32 ?X ?p 0 0 kBreakOnSwap, THEN conjunct2]
    by (simp add: buf X tags)
  from a b show ?thesis by simp
qed

text \<open>
  C8 as stated fails in its last part: the byte count of the decompressor's output is never
  compared with \<open>full_length\<close>. With a decompressor that stores 4 bytes where 16 are
  declared, the replay of the \<open>MemoryRead\<close> record writes these 4 bytes, leaves the following
  byte alone, runs to the end of the range and issues the final swap.
\<close>

theorem decompressed_length_is_not_checked:
  "outcome (\<lambda>p. (map (physical_memory p) [0x2000, 0x2001, 0x2002, 0x2003, 0x2004],
                  backend_calls p, playing_trace p))
     (PlayTraceOnThread (spec_externals stored) 0 20 kBreakOnSwap
        (new_player (memory_read 16) [])) =
   Some (Inr ([1, 2, 3, 4, 0], [IssueSwap 0 1280 720], False))"
  by (simp add: outcome_def replay_defs spec_defs play_loop_run play_loop_exhausted
      memory_read_def stored_def store_bytes_def)

text \<open>
  C8, amended. For every \<open>MemoryRead\<close> record whose payload lies in the trace buffer: when
  \<open>full_length\<close> is 0, exactly the record's \<open>length\<close> payload bytes are copied verbatim to
  physical memory at \<open>base_ptr\<close>, and no other address changes; when \<open>full_length\<close> is not 0,
  the bytes that \<^verbatim>\<open>DecompressMemory\<close> produces from the \<open>length\<close> payload bytes and the declared
  \<open>full_length\<close> are what is stored at \<open>base_ptr\<close>, however many they are. In both cases the
  replay goes on with the record after the payload; no error is raised.
\<close>

theorem MemoryRead_applies_payload:
  fixes X :: "'s externals" and p :: "'s TracePlayer" and l :: replay_locals
  defines "buf \<equiv> trace_buffer p"
  defines "cmd \<equiv> trace_ptr l"
  defines "payload \<equiv> cmd + sizeof_command X kMemoryRead"
  assumes "cmd < target"
    and "tag_at X buf cmd = Some kMemoryRead"
    and "load_u32 buf (cmd + offsetof_base_ptr X kMemoryRead) = Some base_ptr"
    and "load_u32 buf (cmd + offsetof_length X kMemoryRead) = Some len"
    and "load_u32 buf (cmd + offsetof_full_length X) = Some full_length"
    and "payload + unat len \<le> length buf"
    and "src = take (unat len) (drop payload buf)"
    and "stored_bytes = (if full_length \<noteq> 0 then DecompressMemory X src (unat full_length) else src)"
    and "mem' = store_bytes (physical_memory p) (TranslatePhysical X base_ptr) stored_bytes"
  shows "play_loop X m target l p =
           play_loop X m target (l\<lparr>trace_ptr := payload + unat len\<rparr>)
             (p\<lparr>player_current_ptr := cmd, physical_memory := mem'\<rparr>)
       \<and> (full_length = 0 \<longrightarrow>
            (\<forall>i < unat len. mem' (TranslatePhysical X base_ptr + i) = buf ! (payload + i))
          \<and> (\<forall>a. a < TranslatePhysical X base_ptr \<or> TranslatePhysical X base_ptr + unat len \<le> a
                 \<longrightarrow> mem' a = physical_memory p a))"
proof (intro conjI impI)
  have rd: "read_bytes buf payload (unat len) = Some src"
    using assms(9,10) by (simp add: read_bytes_def)
  have "loop_body X m l p = Some (Continue
       (l\<lparr>trace_ptr := trace_ptr l + sizeof_command X kMemoryRead + unat len\<rparr>)
       (p\<lparr>player_current_ptr := trace_ptr l,
           physical_memory :=
             store_bytes (physical_memory p) (TranslatePhysical X base_ptr)
               (if full_length \<noteq> 0 then DecompressMemory X src (unat full_length) else src)\<rparr>))"
    using assms(5-8) rd unfolding buf_def cmd_def payload_def
    by (rule loop_body_kMemoryRead)
  with assms(4) show "play_loop X m target l p =
      play_loop X m target (l\<lparr>trace_ptr := payload + unat len\<rparr>)
        (p\<lparr>player_current_ptr := cmd, physical_memory := mem'\<rparr>)"
    by (simp add: play_loop_run cmd_def payload_def assms(11,12))
next
  assume raw: "full_length = 0"
  have len: "length src = unat len" using assms(9,10) by simp
  show "\<forall>i < unat len. mem' (TranslatePhysical X base_ptr + i) = buf ! (payload + i)"
    using raw len assms(9) by (simp add: assms(10,11,12) store_bytes_def)
next
  assume raw: "full_length = 0"
  have len: "length src = unat len" using assms(9,10) by simp
  show "\<forall>a. a < TranslatePhysical X base_ptr \<or> TranslatePhysical X base_ptr + unat len \<le> a
          \<longrightarrow> mem' a = physical_memory p a"
    using raw len by (auto simp: assms(11,12) store_bytes_def)
qed

theorem MemoryRead_applies_payload_witness:
  "play_loop (spec_externals stored) kBreakOnSwap 20 (initial_locals 0)
     (new_player (memory_read 0) []) =
   play_loop (spec_externals stored) kBreakOnSwap 20 ((initial_locals 0)\<lparr>trace_ptr := 20\<rparr>)
     ((new_player (memory_read 0) [])
        \<lparr>player_current_ptr := 0,
         physical_memory := store_bytes (\<lambda>a. 0) 0x2000 [1, 2, 3, 4]\<rparr>)
   \<and> store_bytes (\<lambda>a. 0) 0x2000 [1, 2, 3, 4 :: byte] 0x2003 = memory_read 0 ! 19"
proof -
  let ?X = "spec_externals stored"
  let ?p = "new_player (memory_read 0) []"
  let ?l = "initial_locals 0"
  have buf: "trace_buffer ?p = memory_read 0" "physical_memory ?p = (\<lambda>a. 0)"
    by (simp_all add: new_player_def)
  have l: "trace_ptr ?l = 0" by (simp add: initial_locals_def)
  have X: "sizeof_command ?X = spec_sizeof" "offsetof_base_ptr ?X kMemoryRead = 4"
    "offsetof_length ?X kMemoryRead = 8" "offsetof_full_length ?X = 12"
    "TranslatePhysical ?X = unat"
    by (simp_all add: spec_externals_def)
  have tag: "tag_at ?X (memory_read 0) 0 = Some kMemoryRead"
    by (simp add: tag_at_def load_u32_def spec_externals_def spec_command_type_def
        memory_read_def)
  have loads: "load_u32 (memory_read 0) 4 = Some 0x2000" "load_u32 (memory_read 0) 8 = Some 4"
    "load_u32 (memory_read 0) 12 = Some 0"
    by (simp_all add: load_u32_def memory_read_def)
  have len: "length (memory_read 0) = 20" by (simp add: memory_read_def)
  have src: "take 4 (drop 16 (memory_read 0)) = [1, 2, 3, 4]" by (simp add: memory_read_def)
  have "play_loop ?X kBreakOnSwap 20 ?l ?p =
           play_loop ?X kBreakOnSwap 20 (?l\<lparr>trace_ptr := 20\<rparr>)
             (?p\<lparr>player_current_ptr := 0,
                 physical_memory := store_bytes (\<lambda>a. 0) 0x2000 [1, 2, 3, 4]\<rparr>)
       \<and> (\<forall>i < 4. store_bytes (\<lambda>a. 0) 0x2000 [1, 2, 3, 4 :: byte] (0x2000 + i)
                     = memory_read 0 ! (16 + i))"
    using MemoryRead_applies_payload
      [of ?l 20 ?X ?p "0x2000" 4 0 "[1, 2, 3, 4]" "[1, 2, 3, 4]"
          "store_bytes (\<lambda>a. 0) 0x2000 [1, 2, 3, 4]" kBreakOnSwap]
    by (simp add: buf l X tag loads len src)
  then have run: "play_loop ?X kBreakOnSwap 20 ?l ?p =
           play_loop ?X kBreakOnSwap 20 (?l\<lparr>trace_ptr := 20\<rparr>)
             (?p\<lparr>player_current_ptr := 0,
                 physical_memory := store_bytes (\<lambda>a. 0) 0x2000 [1, 2, 3, 4]\<rparr>)"
    and copied: "\<forall>i < 4. store_bytes (\<lambda>a. 0) 0x2000 [1, 2, 3, 4 :: byte] (0x2000 + i)
                     = memory_read 0 ! (16 + i)"
    by blast+
  from copied have "(3::nat) < 4 \<longrightarrow>
      store_bytes (\<lambda>a. 0) 0x2000 [1, 2, 3, 4 :: byte] (0x2000 + 3) = memory_read 0 ! (16 + 3)"
    by (rule spec)
  then have "store_bytes (\<lambda>a. 0) 0x2000 [1, 2, 3, 4 :: byte] 0x2003 = memory_read 0 ! 19"
    by simp
  with run show ?thesis by simp
qed

subsection \<open>Auxiliary facts on replays of consecutive ranges\<close>

lemma loop_body_control:
  assumes "control l1 p1 = control l2 p2"
  shows "map_option iteration_view (loop_body X m l1 p1) = map_option iteration_view (loop_body X m l2 p2)"
proof -
  from assms have eq: "l2 = l1" "trace_buffer p2 = trace_buffer p1"
    "physical_memory p2 = physical_memory p1" "backend_state p2 = backend_state p1"
    "swap_mode p2 = swap_mode p1"
    by (simp_all add: control_def machine_def)
  show ?thesis
  proof (cases "load_u32 (trace_buffer p1) (trace_ptr l1)")
    case None
    then show ?thesis by (simp add: loop_body_def Let_def eq)
  next
    case (Some tag)
    show ?thesis
    proof (cases "command_type X tag")
      case None
      with Some show ?thesis by (simp add: loop_body_def Let_def eq control_def machine_def)
    next
      case (Some k)
      with \<open>load_u32 (trace_buffer p1) (trace_ptr l1) = Some tag\<close> show ?thesis
        by (cases k)
           (auto simp: loop_body_def Let_def eq control_def machine_def
              command_processor_ExecutePacket_def
              split: Option.bind_splits option.splits)
    qed
  qed
qed

lemma iteration_view_Continue:
  assumes "map_option iteration_view r = Some (Inl c)"
  obtains l p where "r = Some (Continue l p)" "control l p = c"
proof (cases r)
  case None
  with assms show ?thesis by simp
next
  case (Some it)
  with assms that show ?thesis by (cases it) simp_all
qed

lemma iteration_view_Return:
  assumes "map_option iteration_view r = Some (Inr c)"
  obtains p where "r = Some (Return p)" "machine p = c"
proof (cases r)
  case None
  with assms show ?thesis by simp
next
  case (Some it)
  with assms that show ?thesis by (cases it) simp_all
qed

lemma play_loop_control_Some:
  assumes run: "play_loop X m t l1 p1 = Some r1"
  shows "\<forall>l2 p2. control l1 p1 = control l2 p2 \<longrightarrow>
           (\<exists>r2. play_loop X m t l2 p2 = Some r2 \<and> map_sum id exit_view r1 = map_sum id exit_view r2)"
proof (induct rule: play_loop.raw_induct [OF _ run])
  case (1 loop X m t l1 p1 r1)
  show ?case
  proof (intro allI impI)
    fix l2 p2
    assume c: "control l1 p1 = control l2 p2"
    then have ptr: "trace_ptr l2 = trace_ptr l1" by (simp add: control_def)
    note body = loop_body_control [OF c, of X m]
    show "\<exists>r2. play_loop X m t l2 p2 = Some r2 \<and> map_sum id exit_view r1 = map_sum id exit_view r2"
    proof (cases "trace_ptr l1 < t")
      case False
      with 1(2) have "r1 = Inr (Exhausted l1 p1)" by simp
      with False ptr c show ?thesis by (simp add: play_loop_exhausted)
    next
      case True
      show ?thesis
      proof (cases "loop_body X m l1 p1")
        case None
        with body have "loop_body X m l2 p2 = None" by simp
        with None True 1(2) ptr show ?thesis by (simp add: play_loop_run)
      next
        case (Some it)
        show ?thesis
        proof (cases it)
          case (Continue l1' p1')
          with Some body have "map_option iteration_view (loop_body X m l2 p2)
              = Some (Inl (control l1' p1'))" by simp
          then obtain l2' p2' where
            b2: "loop_body X m l2 p2 = Some (Continue l2' p2')"
            and c': "control l2' p2' = control l1' p1'"
            by (rule iteration_view_Continue)
          from 1(2) True Some Continue have "loop X m t l1' p1' = Some r1" by simp
          from 1(1) [OF this] c' obtain r2 where
            "play_loop X m t l2' p2' = Some r2" "map_sum id exit_view r1 = map_sum id exit_view r2"
            by metis
          with b2 True ptr show ?thesis by (simp add: play_loop_run)
        next
          case (Return p1')
          with Some body have "map_option iteration_view (loop_body X m l2 p2)
              = Some (Inr (machine p1'))" by simp
          then obtain p2' where
            b2: "loop_body X m l2 p2 = Some (Return p2')" and v: "machine p2' = machine p1'"
            by (rule iteration_view_Return)
          from 1(2) True Some Return have "r1 = Inr (Returned p1')" by simp
          with b2 True ptr v show ?thesis by (simp add: play_loop_run)
        qed
      qed
    qed
  qed
qed

lemma play_loop_control:
  assumes c: "control l1 p1 = control l2 p2"
  shows "map_option (map_sum id exit_view) (play_loop X m t l1 p1)
       = map_option (map_sum id exit_view) (play_loop X m t l2 p2)"
proof (cases "play_loop X m t l1 p1")
  case (Some r1)
  from play_loop_control_Some [OF Some] c obtain r2 where
    "play_loop X m t l2 p2 = Some r2" "map_sum id exit_view r1 = map_sum id exit_view r2"
    by blast
  with Some show ?thesis by simp
next
  case None
  show ?thesis
  proof (cases "play_loop X m t l2 p2")
    case (Some r2)
    from play_loop_control_Some [OF Some] c [symmetric] obtain r1 where
      "play_loop X m t l1 p1 = Some r1"
      by blast
    with None show ?thesis by simp
  next
    case n2: None
    with None show ?thesis by simp
  qed
qed

lemma play_loop_extend_aux:
  assumes run: "play_loop X m b l p = Some r"
  shows "\<forall>l' p'. r = Inr (Exhausted l' p') \<longrightarrow> trace_ptr l' = b \<longrightarrow> b \<le> c \<longrightarrow>
           play_loop X m c l p = play_loop X m c l' p'"
proof (induct rule: play_loop.raw_induct [OF _ run])
  case (1 loop X m b l p r)
  show ?case
  proof (intro allI impI)
    fix l' p'
    assume r: "r = Inr (Exhausted l' p')" and at: "trace_ptr l' = b" and le: "b \<le> c"
    show "play_loop X m c l p = play_loop X m c l' p'"
    proof (cases "trace_ptr l < b")
      case False
      with 1(2) r show ?thesis by simp
    next
      case True
      then have lt: "trace_ptr l < c" using le by simp
      show ?thesis
      proof (cases "loop_body X m l p")
        case None
        with 1(2) True r show ?thesis by simp
      next
        case (Some it)
        show ?thesis
        proof (cases it)
          case (Continue l1 p1)
          with 1(2) True Some have "loop X m b l1 p1 = Some r" by simp
          from 1(1) [OF this] r at le have "play_loop X m c l1 p1 = play_loop X m c l' p'"
            by blast
          with lt Some Continue show ?thesis by (simp add: play_loop_run)
        next
          case (Return p1)
          with 1(2) True Some r show ?thesis by simp
        qed
      qed
    qed
  qed
qed

lemma play_loop_extend:
  "play_loop X m b l p = Some (Inr (Exhausted l' p')) \<Longrightarrow> trace_ptr l' = b \<Longrightarrow> b \<le> c \<Longrightarrow>
   play_loop X m c l p = play_loop X m c l' p'"
  using play_loop_extend_aux by blast

lemma PlayTraceOnThread_memory:
  assumes "data + size_t \<le> length (trace_buffer p)"
  shows "outcome physical_memory (PlayTraceOnThread X data size_t m p) =
   map_option (map_sum id (final_memory X))
     (play_loop X m (data + size_t) (initial_locals data) (enter_replay data size_t p))"
proof (cases "play_loop X m (data + size_t) (initial_locals data) (enter_replay data size_t p)")
  case None
  with assms show ?thesis by (simp add: PlayTraceOnThread_def outcome_def)
next
  case (Some r)
  show ?thesis
  proof (cases r)
    case (Inl e)
    with Some assms show ?thesis by (simp add: PlayTraceOnThread_def outcome_def)
  next
    case (Inr ex)
    with Some assms show ?thesis
      by (cases ex) (simp_all add: PlayTraceOnThread_def outcome_def final_memory_def)
  qed
qed

lemma leave_replay_machine:
  "machine p1 = machine p2 \<Longrightarrow>
   physical_memory (leave_replay X p1) = physical_memory (leave_replay X p2)"
  by (simp add: machine_def leave_replay_def command_processor_IssueSwap_def Let_def)

lemma final_memory_view:
  assumes "map_sum id exit_view r1 = map_sum id exit_view r2"
  shows "map_sum id (final_memory X) r1 = map_sum id (final_memory X) r2"
proof (cases r1)
  case l1: (Inl e1)
  with assms show ?thesis by (cases r2) simp_all
next
  case r: (Inr ex1)
  show ?thesis
  proof (cases r2)
    case (Inl e2)
    with assms r show ?thesis by simp
  next
    case (Inr ex2)
    show ?thesis
    proof (cases ex1)
      case R1: (Returned q1)
      show ?thesis
      proof (cases ex2)
        case (Returned q2)
        with assms r Inr R1 have "machine q1 = machine q2" by simp
        then have "physical_memory q1 = physical_memory q2" by (simp add: machine_def)
        with r Inr R1 Returned show ?thesis by (simp add: final_memory_def)
      next
        case (Exhausted l2 q2)
        with assms r Inr R1 show ?thesis by simp
      qed
    next
      case E1: (Exhausted l1 q1)
      show ?thesis
      proof (cases ex2)
        case (Returned q2)
        with assms r Inr E1 show ?thesis by simp
      next
        case (Exhausted l2 q2)
        with assms r Inr E1 have "machine q1 = machine q2" by (simp add: control_def)
        then have "physical_memory (leave_replay X q1) = physical_memory (leave_replay X q2)"
          by (rule leave_replay_machine)
        with r Inr E1 Exhausted show ?thesis by (simp add: final_memory_def)
      qed
    qed
  qed
qed

lemma loop_body_keeps:
  assumes "loop_body X m l p = Some it"
  shows "trace_buffer (case it of Continue l' p' \<Rightarrow> p' | Return p' \<Rightarrow> p') = trace_buffer p
       \<and> swap_mode (case it of Continue l' p' \<Rightarrow> p' | Return p' \<Rightarrow> p') = swap_mode p"
proof (cases "load_u32 (trace_buffer p) (trace_ptr l)")
  case None
  with assms show ?thesis by (simp add: loop_body_def Let_def)
next
  case (Some tag)
  show ?thesis
  proof (cases "command_type X tag")
    case None
    with Some assms show ?thesis by (auto simp: loop_body_def Let_def)
  next
    case k: (Some k)
    with Some assms show ?thesis
      by (cases k)
         (auto simp: loop_body_def Let_def command_processor_ExecutePacket_def
            split: Option.bind_splits option.splits if_splits)
  qed
qed

lemma play_loop_keeps_aux:
  assumes run: "play_loop X m t l p = Some r"
  shows "\<forall>ex. r = Inr ex \<longrightarrow>
           trace_buffer (case ex of Returned p' \<Rightarrow> p' | Exhausted l' p' \<Rightarrow> p') = trace_buffer p
         \<and> swap_mode (case ex of Returned p' \<Rightarrow> p' | Exhausted l' p' \<Rightarrow> p') = swap_mode p"
proof (induct rule: play_loop.raw_induct [OF _ run])
  case (1 loop X m t l p r)
  show ?case
  proof (intro allI impI)
    fix ex assume r: "r = Inr ex"
    let ?q = "case ex of Returned p' \<Rightarrow> p' | Exhausted l' p' \<Rightarrow> p'"
    show "trace_buffer ?q = trace_buffer p \<and> swap_mode ?q = swap_mode p"
    proof (cases "trace_ptr l < t")
      case False
      with 1(2) r show ?thesis by auto
    next
      case True
      show ?thesis
      proof (cases "loop_body X m l p")
        case None
        with 1(2) True r show ?thesis by simp
      next
        case (Some it)
        note keeps = loop_body_keeps [OF Some]
        show ?thesis
        proof (cases it)
          case (Continue l1 p1)
          with 1(2) True Some have "loop X m t l1 p1 = Some r" by simp
          from 1(1) [OF this] r
          have "trace_buffer ?q = trace_buffer p1 \<and> swap_mode ?q = swap_mode p1" by blast
          with keeps Continue show ?thesis by simp
        next
          case (Return p1)
          with 1(2) True Some r have "ex = Returned p1" by simp
          with keeps Return show ?thesis by simp
        qed
      qed
    qed
  qed
qed

lemma play_loop_exhausted_keeps:
  "play_loop X m t l p = Some (Inr (Exhausted l' p')) \<Longrightarrow>
   trace_buffer p' = trace_buffer p \<and> swap_mode p' = swap_mode p"
  using play_loop_keeps_aux [of X m t l p "Inr (Exhausted l' p')"] by simp

lemma run_requests_single:
  "run_requests X [r] p = PlayTraceOnThread X (req_data r) (req_size r) (req_mode r) p"
proof (cases "PlayTraceOnThread X (req_data r) (req_size r) (req_mode r) p")
  case None
  then show ?thesis by simp
next
  case (Some res)
  then show ?thesis by (cases res) simp_all
qed

lemma machine_enter: "machine (enter_replay a n q) = machine (q\<lparr>swap_mode := kIgnored\<rparr>)"
  by (simp add: machine_def enter_replay_def)

lemma clean_replayD:
  assumes "clean_replay X a b q"
  obtains l' q' where
    "play_loop X kBreakOnSwap b (initial_locals a) (enter_replay a (b - a) q)
       = Some (Inr (Exhausted l' q'))"
    "l' = initial_locals b"
    "IssueSwap_effect X 0 1280 720 kNormal (backend_state q', physical_memory q')
       = (backend_state q', physical_memory q')"
proof (cases "play_loop X kBreakOnSwap b (initial_locals a) (enter_replay a (b - a) q)")
  case None
  with assms show ?thesis by (simp add: clean_replay_def)
next
  case (Some r)
  show ?thesis
  proof (cases r)
    case (Inl e)
    with Some assms show ?thesis by (simp add: clean_replay_def)
  next
    case (Inr ex)
    show ?thesis
    proof (cases ex)
      case (Returned p')
      with Some Inr assms show ?thesis by (simp add: clean_replay_def)
    next
      case (Exhausted l' q')
      with Some Inr assms have
        "trace_ptr l' = b \<and> \<not> pending_break l' \<and> pending_packet l' = None"
        and neutral: "IssueSwap_effect X 0 1280 720 kNormal (backend_state q', physical_memory q')
           = (backend_state q', physical_memory q')"
        by (simp_all add: clean_replay_def)
      then have "l' = initial_locals b" by (cases l') (simp add: initial_locals_def)
      with Some Inr Exhausted neutral that show ?thesis by simp
    qed
  qed
qed

lemma play_loop_control_exhausted:
  assumes c: "control l1 p1 = control l2 p2"
    and run: "play_loop X m t l2 p2 = Some (Inr (Exhausted l2' p2'))"
  obtains l1' p1' where "play_loop X m t l1 p1 = Some (Inr (Exhausted l1' p1'))"
    "control l1' p1' = control l2' p2'"
proof -
  from play_loop_control_Some [OF run] c [symmetric]
  obtain r1 where r1: "play_loop X m t l1 p1 = Some r1"
    and v: "map_sum id exit_view (Inr (Exhausted l2' p2')) = map_sum id exit_view r1"
    by blast
  show ?thesis
  proof (cases r1)
    case (Inl e)
    with v show ?thesis by simp
  next
    case (Inr ex)
    show ?thesis
    proof (cases ex)
      case (Returned p')
      with v Inr show ?thesis by simp
    next
      case (Exhausted l1' p1')
      with v Inr have "control l1' p1' = control l2' p2'" by simp
      with r1 Inr Exhausted that show ?thesis by simp
    qed
  qed
qed

lemma play_loop_control_memory:
  assumes "control l1 p1 = control l2 p2"
  shows "map_option (map_sum id (final_memory X)) (play_loop X m t l1 p1)
       = map_option (map_sum id (final_memory X)) (play_loop X m t l2 p2)"
proof -
  note eq = play_loop_control [OF assms, of X m t]
  show ?thesis
  proof (cases "play_loop X m t l1 p1")
    case None
    with eq show ?thesis by simp
  next
    case s1: (Some r1)
    show ?thesis
    proof (cases "play_loop X m t l2 p2")
      case None
      with eq s1 show ?thesis by simp
    next
      case s2: (Some r2)
      with eq s1 have "map_sum id exit_view r1 = map_sum id exit_view r2" by simp
      then have "map_sum id (final_memory X) r1 = map_sum id (final_memory X) r2"
        by (rule final_memory_view)
      with s1 s2 show ?thesis by simp
    qed
  qed
qed

lemma neutral_leave:
  assumes "IssueSwap_effect X 0 1280 720 kNormal (backend_state p, physical_memory p)
       = (backend_state p, physical_memory p)"
    and "swap_mode p = kIgnored"
  shows "machine ((leave_replay X p)\<lparr>swap_mode := kIgnored\<rparr>) = machine p"
  using assms by (simp add: machine_def leave_replay_def command_processor_IssueSwap_def Let_def)

lemma full_replay_equals_steps:
  assumes "clean_steps X a bs q0"
    and "sorted (a # bs @ [c])"
    and "c \<le> length (trace_buffer q)"
    and "l = initial_locals a"
    and "machine p = machine (q\<lparr>swap_mode := kIgnored\<rparr>)"
    and "machine (q0\<lparr>swap_mode := kIgnored\<rparr>) = machine (q\<lparr>swap_mode := kIgnored\<rparr>)"
  shows "map_option (map_sum id (final_memory X)) (play_loop X kBreakOnSwap c l p)
       = outcome physical_memory (run_requests X (delta_requests a (bs @ [c])) q)"
  using assms
proof (induction bs arbitrary: a l p q q0)
  case Nil
  then have ac: "a \<le> c" by simp
  have "outcome physical_memory (run_requests X (delta_requests a ([] @ [c])) q)
      = outcome physical_memory (PlayTraceOnThread X a (c - a) kBreakOnSwap q)"
    by (simp add: run_requests_single del: run_requests.simps)
  also have "\<dots> = map_option (map_sum id (final_memory X))
      (play_loop X kBreakOnSwap c (initial_locals a) (enter_replay a (c - a) q))"
    using PlayTraceOnThread_memory [of a "c - a" q X kBreakOnSwap] ac Nil.prems(3) by simp
  also have "\<dots> = map_option (map_sum id (final_memory X)) (play_loop X kBreakOnSwap c l p)"
  proof -
    have "control l p = control (initial_locals a) (enter_replay a (c - a) q)"
      using Nil.prems(4,5) by (simp add: control_def machine_enter)
    then show ?thesis by (rule play_loop_control_memory [symmetric])
  qed
  finally have "outcome physical_memory (run_requests X (delta_requests a ([] @ [c])) q)
      = map_option (map_sum id (final_memory X)) (play_loop X kBreakOnSwap c l p)" .
  then show ?case by (rule sym)
next
  case (Cons b bs)
  from Cons.prems(2) have ab: "a \<le> b" and bc: "b \<le> c" and sorted': "sorted (b # bs @ [c])"
    by auto
  from Cons.prems(1) have clean: "clean_replay X a b q0" by simp
  from clean obtain l0 q0' where
    seg0: "play_loop X kBreakOnSwap b (initial_locals a) (enter_replay a (b - a) q0)
            = Some (Inr (Exhausted l0 q0'))"
    and l0: "l0 = initial_locals b"
    and neutral0: "IssueSwap_effect X 0 1280 720 kNormal (backend_state q0', physical_memory q0')
       = (backend_state q0', physical_memory q0')"
    by (rule clean_replayD)
  have bufs: "trace_buffer q0 = trace_buffer q"
    using Cons.prems(6) by (simp add: machine_def)
  have blen: "b \<le> length (trace_buffer q)" using bc Cons.prems(3) by simp
  have blen0: "b \<le> length (trace_buffer q0)" using blen bufs by simp
  have step0: "PlayTraceOnThread X a (b - a) kBreakOnSwap q0 = Some (Inr (leave_replay X q0'))"
    using seg0 ab blen0 by (simp add: PlayTraceOnThread_def)
  with Cons.prems(1) have rest: "clean_steps X b bs (leave_replay X q0')" by simp
  have mode0: "swap_mode q0' = kIgnored"
    using play_loop_exhausted_keeps [OF seg0] by (simp add: enter_replay_def)
  \<comment> \<open>the same range replayed from \<open>q\<close>\<close>
  have "control (initial_locals a) (enter_replay a (b - a) q)
      = control (initial_locals a) (enter_replay a (b - a) q0)"
    using Cons.prems(6) by (simp add: control_def machine_enter)
  from this seg0 obtain lq q' where
    seg: "play_loop X kBreakOnSwap b (initial_locals a) (enter_replay a (b - a) q)
            = Some (Inr (Exhausted lq q'))"
    and cq: "control lq q' = control l0 q0'"
    by (rule play_loop_control_exhausted)
  have step: "PlayTraceOnThread X a (b - a) kBreakOnSwap q = Some (Inr (leave_replay X q'))"
    using seg ab blen by (simp add: PlayTraceOnThread_def)
  have bufq: "trace_buffer q' = trace_buffer q"
    using play_loop_exhausted_keeps [OF seg] by (simp add: enter_replay_def)
  from cq have mq: "machine q' = machine q0'" by (simp add: control_def)
  then have modeq: "swap_mode q' = kIgnored" and
    neutralq: "IssueSwap_effect X 0 1280 720 kNormal (backend_state q', physical_memory q')
       = (backend_state q', physical_memory q')"
    using mode0 neutral0 by (simp_all add: machine_def)
  \<comment> \<open>the same range in the full replay\<close>
  have "control l p = control (initial_locals a) (enter_replay a (b - a) q0)"
    using Cons.prems(4,5,6) by (simp add: control_def machine_enter)
  from this seg0 obtain l1 p1 where
    r1: "play_loop X kBreakOnSwap b l p = Some (Inr (Exhausted l1 p1))"
    and c1: "control l1 p1 = control l0 q0'"
    by (rule play_loop_control_exhausted)
  from c1 l0 have l1: "l1 = initial_locals b" and m1: "machine p1 = machine q0'"
    by (simp_all add: control_def)
  have at1: "trace_ptr l1 = b" using l1 by (simp add: initial_locals_def)
  have ext: "play_loop X kBreakOnSwap c l p = play_loop X kBreakOnSwap c l1 p1"
    using r1 at1 bc by (rule play_loop_extend)
  have next_q: "machine ((leave_replay X q')\<lparr>swap_mode := kIgnored\<rparr>) = machine q'"
    using neutralq modeq by (rule neutral_leave)
  have next_q0: "machine ((leave_replay X q0')\<lparr>swap_mode := kIgnored\<rparr>) = machine q0'"
    using neutral0 mode0 by (rule neutral_leave)
  have len': "c \<le> length (trace_buffer (leave_replay X q'))"
    using Cons.prems(3) bufq
    by (simp add: leave_replay_def command_processor_IssueSwap_def Let_def)
  have IH: "map_option (map_sum id (final_memory X)) (play_loop X kBreakOnSwap c l1 p1)
       = outcome physical_memory
           (run_requests X (delta_requests b (bs @ [c])) (leave_replay X q'))"
    using rest sorted' len' l1
  proof (rule Cons.IH)
    show "machine p1 = machine ((leave_replay X q')\<lparr>swap_mode := kIgnored\<rparr>)"
      using m1 mq next_q by simp
    show "machine ((leave_replay X q0')\<lparr>swap_mode := kIgnored\<rparr>)
        = machine ((leave_replay X q')\<lparr>swap_mode := kIgnored\<rparr>)"
      using mq next_q next_q0 by simp
  qed
  have "run_requests X (delta_requests a ((b # bs) @ [c])) q
      = run_requests X (delta_requests b (bs @ [c])) (leave_replay X q')"
    using step by simp
  with ext IH show ?case by (simp only:)
qed

lemma current_frame_cong:
  "frames q = frames p \<Longrightarrow> current_frame_index q = current_frame_index p \<Longrightarrow>
   current_frame q = current_frame p"
  by (simp add: current_frame_def frame_count_def frame_def)

lemma seek_commands_snoc:
  "seek_commands (cs @ [c]) p =
     (case seek_commands cs p of Inl e \<Rightarrow> Inl e | Inr p' \<Rightarrow> SeekCommand c p')"
proof (induction cs arbitrary: p)
  case Nil
  show ?case by (cases "SeekCommand c p") simp_all
next
  case (Cons x xs)
  show ?case by (cases "SeekCommand x p") (simp_all add: Cons.IH)
qed

lemma delta_requests_snoc:
  "delta_requests a (bs @ [b]) =
     delta_requests a bs @
       [\<lparr>req_data = last (a # bs), req_size = b - last (a # bs), req_mode = kBreakOnSwap\<rparr>]"
  by (induction bs arbitrary: a) simp_all

lemma ends_Suc:
  "n < length cs \<Longrightarrow>
   map command_end_ptr (take (Suc n) cs) = map command_end_ptr (take n cs) @ [command_end_ptr (cs ! n)]"
  by (simp add: take_Suc_conv_app_nth)

lemma stepwise_seeks:
  assumes "current_frame p = Some (Inr f)"
    and "current_command_index p = - 1"
    and "n < length (commands f)"
    and "sorted (start_ptr f # map command_end_ptr (take (Suc n) (commands f)))"
  shows "seek_commands (map int [0..<Suc n]) p =
     Inr (p\<lparr>current_command_index := int n,
            call_queue := call_queue p @
              delta_requests (start_ptr f) (map command_end_ptr (take (Suc n) (commands f)))\<rparr>)"
  using assms(3,4)
proof (induction n)
  case 0
  then have le: "start_ptr f \<le> command_end_ptr (commands f ! nat 0)"
    by (simp add: take_Suc_conv_app_nth)
  have len: "0 < int (length (commands f))" using 0 by simp
  have "SeekCommand 0 p =
      Inr (PlayTrace (start_ptr f) (ptr_diff (command_end_ptr (commands f ! nat 0)) (start_ptr f))
             kBreakOnSwap (p\<lparr>current_command_index := 0\<rparr>))"
    using SeekCommand_body [of 0 p f, OF _ _ assms(1) _ len le] assms(2) by simp
  then have "SeekCommand 0 p =
      Inr (p\<lparr>current_command_index := 0,
             call_queue := call_queue p @
               [\<lparr>req_data = start_ptr f,
                 req_size = command_end_ptr (commands f ! 0) - start_ptr f,
                 req_mode = kBreakOnSwap\<rparr>]\<rparr>)"
    using le by (simp add: PlayTrace_def ptr_diff_le)
  with 0 show ?case by (simp add: take_Suc_conv_app_nth)
next
  case (Suc n)
  let ?cs = "commands f"
  let ?E = "map command_end_ptr (take (Suc n) ?cs)"
  let ?e = "command_end_ptr (?cs ! Suc n)"
  have n: "n < length ?cs" using Suc.prems(1) by simp
  have E': "map command_end_ptr (take (Suc (Suc n)) ?cs) = ?E @ [?e]"
    using Suc.prems(1) by (rule ends_Suc)
  have En: "?E = map command_end_ptr (take n ?cs) @ [command_end_ptr (?cs ! n)]"
    using n by (rule ends_Suc)
  from Suc.prems(2) have srt: "sorted ((start_ptr f # ?E) @ [?e])" by (simp only: E' append_Cons)
  then have sorted_n: "sorted (start_ptr f # ?E)" and
    below: "\<forall>x \<in> set (start_ptr f # ?E). x \<le> ?e"
    unfolding sorted_append by simp_all
  from below have le_start: "start_ptr f \<le> ?e" by simp
  have "command_end_ptr (?cs ! n) \<in> set ?E" by (subst En) simp
  with below have le_prev: "command_end_ptr (?cs ! n) \<le> ?e" by auto
  have last: "last (start_ptr f # ?E) = command_end_ptr (?cs ! n)" by (subst En) simp
  have nat1: "nat (1 + int n) = Suc n" by simp
  define pn where "pn = p\<lparr>current_command_index := int n,
      call_queue := call_queue p @ delta_requests (start_ptr f) ?E\<rparr>"
  have IH: "seek_commands (map int [0..<Suc n]) p = Inr pn"
    using Suc.IH [OF n sorted_n] by (simp add: pn_def)
  have "current_frame pn = current_frame p"
    by (rule current_frame_cong) (simp_all add: pn_def)
  then have cf: "current_frame pn = Some (Inr f)"
    using assms(1) by simp
  have idx: "current_command_index pn = int n" by (simp add: pn_def)
  have "SeekCommand (int (Suc n)) pn =
      (if int (Suc n) \<noteq> 0 \<and> current_command_index pn = int (Suc n) - 1
       then Inr (PlayTrace (command_end_ptr (?cs ! nat (int (Suc n) - 1)))
                   (ptr_diff (command_end_ptr (?cs ! nat (int (Suc n))))
                      (command_end_ptr (?cs ! nat (int (Suc n) - 1))))
                   kBreakOnSwap (pn\<lparr>current_command_index := int (Suc n)\<rparr>))
       else Inr (PlayTrace (start_ptr f)
                   (ptr_diff (command_end_ptr (?cs ! nat (int (Suc n)))) (start_ptr f))
                   kBreakOnSwap (pn\<lparr>current_command_index := int (Suc n)\<rparr>)))"
    using Suc.prems(1) le_start idx
    by (intro SeekCommand_body [OF _ _ cf]) (simp_all add: nat1)
  then have step: "SeekCommand (int (Suc n)) pn =
      Inr (pn\<lparr>current_command_index := int (Suc n),
              call_queue := call_queue pn @
                [\<lparr>req_data = command_end_ptr (?cs ! n),
                  req_size = ?e - command_end_ptr (?cs ! n),
                  req_mode = kBreakOnSwap\<rparr>]\<rparr>)"
    using idx le_prev by (simp add: PlayTrace_def ptr_diff_le nat1)
  have "map int [0..<Suc (Suc n)] = map int [0..<Suc n] @ [int (Suc n)]" by simp
  then have "seek_commands (map int [0..<Suc (Suc n)]) p = SeekCommand (int (Suc n)) pn"
    using IH by (simp only: seek_commands_snoc sum.case)
  also note step
  also have "pn\<lparr>current_command_index := int (Suc n),
              call_queue := call_queue pn @
                [\<lparr>req_data = command_end_ptr (?cs ! n),
                  req_size = ?e - command_end_ptr (?cs ! n),
                  req_mode = kBreakOnSwap\<rparr>]\<rparr>
      = p\<lparr>current_command_index := int (Suc n),
            call_queue := call_queue p @
              delta_requests (start_ptr f) (map command_end_ptr (take (Suc (Suc n)) ?cs))\<rparr>"
    by (simp only: E' delta_requests_snoc last) (simp add: pn_def)
  finally show ?case .
qed

lemma run_queue_single:
  "call_queue p = [r] \<Longrightarrow>
   run_queue X p = PlayTraceOnThread X (req_data r) (req_size r) (req_mode r) (p\<lparr>call_queue := []\<rparr>)"
  by (simp only: run_queue_def run_requests_single)

lemma seek_commands_single: "seek_commands [c] p = SeekCommand c p"
  by (cases "SeekCommand c p") simp_all

subsection \<open>Stepping through a frame\<close>

text \<open>
  C1 as stated fails. The trace \<open>swap_between_packets\<close> is one frame: replayed as a whole
  under \<^verbatim>\<open>kBreakOnSwap\<close> it returns at its last \<open>PacketEnd\<close>, the record at offset 44 that ends
  the frame (first conjunct). The frame index \<open>record_frame\<close> lists the end offset of every
  record of the frame, in ascending order up to the frame's end: command 0 is the
  \<open>PacketStart\<close> of the first packet, command 1 its \<open>PacketEnd\<close>. The command processor copies
  the first byte of a packet it executes to the address 256 bytes further on. Seeking to
  command 1 directly replays \<open>[0, 20)\<close>: the packet \<open>AA\<close> is stored at \<open>0x1000\<close> and executed,
  which writes \<open>AA\<close> to \<open>0x1100\<close> (second conjunct). Stepping to command 0 and then to command
  1 replays \<open>[0, 16)\<close> and \<open>[16, 20)\<close>: the pending packet is a local of the first invocation,
  the second meets the \<open>PacketEnd\<close> with none pending, the packet is never executed and
  \<open>0x1100\<close> stays 0 (third conjunct).
\<close>

theorem stepping_differs_from_full_replay:
  "outcome (\<lambda>p. (player_current_ptr p, swap_mode p))
     (PlayTraceOnThread copying_externals (start_ptr record_frame)
        (end_ptr record_frame - start_ptr record_frame) kBreakOnSwap
        (new_player swap_between_packets [record_frame]))
     = Some (Inr (44, kIgnored))
   \<and> outcome (\<lambda>p. (physical_memory p 0x1100, backend_calls p))
     (seek_and_run copying_externals [1] (new_player swap_between_packets [record_frame]))
     = Some (Inr (0xAA, [ExecutePacket 0x1000 1, IssueSwap 0 1280 720]))
   \<and> outcome (\<lambda>p. (physical_memory p 0x1100, backend_calls p))
     (seek_and_run copying_externals [0, 1] (new_player swap_between_packets [record_frame]))
     = Some (Inr (0, [IssueSwap 0 1280 720, IssueSwap 0 1280 720]))"
proof -
  let ?X = copying_externals
  let ?p = "new_player swap_between_packets [record_frame]"
  have s1: "seek_commands [1] ?p =
      Inr (?p\<lparr>current_command_index := 1,
              call_queue := [\<lparr>req_data = 0, req_size = 20, req_mode = kBreakOnSwap\<rparr>]\<rparr>)"
    by (simp add: SeekCommand_def current_frame_def frame_count_def frame_def command_at_def
        PlayTrace_def ptr_diff_def new_player_def record_frame_def)
  have s2: "seek_commands [0, 1] ?p =
      Inr (?p\<lparr>current_command_index := 1,
              call_queue := [\<lparr>req_data = 0, req_size = 16, req_mode = kBreakOnSwap\<rparr>,
                             \<lparr>req_data = 16, req_size = 4, req_mode = kBreakOnSwap\<rparr>]\<rparr>)"
    by (simp add: SeekCommand_def current_frame_def frame_count_def frame_def command_at_def
        PlayTrace_def ptr_diff_def new_player_def record_frame_def)
  have full: "outcome (\<lambda>p. (physical_memory p 0x1100, backend_calls p)) (seek_and_run ?X [1] ?p)
      = Some (Inr (0xAA, [ExecutePacket 0x1000 1, IssueSwap 0 1280 720]))"
    unfolding seek_and_run_def s1
    by (simp add: run_queue_def outcome_def replay_defs spec_defs play_loop_run
        play_loop_exhausted swap_between_packets_def store_bytes_def
        copying_externals_def copy_first_byte_def)
  have steps: "outcome (\<lambda>p. (physical_memory p 0x1100, backend_calls p))
        (seek_and_run ?X [0, 1] ?p)
      = Some (Inr (0, [IssueSwap 0 1280 720, IssueSwap 0 1280 720]))"
    unfolding seek_and_run_def s2
    by (simp add: run_queue_def outcome_def replay_defs spec_defs play_loop_run
        play_loop_exhausted swap_between_packets_def store_bytes_def
        copying_externals_def copy_first_byte_def)
  have whole: "outcome (\<lambda>p. (player_current_ptr p, swap_mode p))
        (PlayTraceOnThread ?X (start_ptr record_frame)
           (end_ptr record_frame - start_ptr record_frame) kBreakOnSwap ?p)
      = Some (Inr (44, kIgnored))"
    by (simp add: outcome_def replay_defs spec_defs play_loop_run play_loop_exhausted
        swap_between_packets_def record_frame_def copying_externals_def copy_first_byte_def)
  from whole full steps show ?thesis by (simp only: simp_thms)
qed

text \<open>
  C1, amended. Take a frame of the index, a command \<open>c\<close> of it, command offsets in ascending
  order from the frame start and inside the trace buffer, and a player at command \<open>-1\<close> with
  an empty queue. Provided every single-step replay before the last one is clean (it runs to
  the end of its delta range, stops exactly on the command's end offset, leaves neither a
  break nor a packet pending, and its closing presentation changes neither physical memory
  nor the command processor's state), seeking to \<open>c\<close> directly, which submits one replay of
  \<open>[start_ptr, c.end_ptr)\<close>, and seeking to \<open>0, 1, \<dots>, c\<close> one after the other, which submits
  the delta replays, end in the same way when the queue has run: both do not return, or both
  end with the same fault, or both return with byte-identical physical memory. Physical
  memory is what the replay stores and what the command processor writes when it executes a
  packet or presents; the command processor is arbitrary.
\<close>

theorem stepping_equals_full_replay:
  fixes X :: "'s externals" and p :: "'s TracePlayer" and f :: Frame and c :: nat
  defines "ends \<equiv> map command_end_ptr (take (Suc c) (commands f))"
  assumes frame: "current_frame p = Some (Inr f)"
    and fresh: "current_command_index p = - 1" "call_queue p = []"
    and c: "c < length (commands f)"
    and ordered: "sorted (start_ptr f # ends)"
    and within: "last ends \<le> length (trace_buffer p)"
    and clean: "clean_steps X (start_ptr f) (butlast ends) p"
  shows "seek_commands [int c] p =
           Inr (p\<lparr>current_command_index := int c,
                  call_queue := [\<lparr>req_data = start_ptr f, req_size = last ends - start_ptr f,
                                  req_mode = kBreakOnSwap\<rparr>]\<rparr>)
       \<and> seek_commands (map int [0..<Suc c]) p =
           Inr (p\<lparr>current_command_index := int c,
                  call_queue := delta_requests (start_ptr f) ends\<rparr>)
       \<and> outcome physical_memory (seek_and_run X [int c] p)
           = outcome physical_memory (seek_and_run X (map int [0..<Suc c]) p)"
proof -
  let ?a = "start_ptr f"
  let ?e = "command_end_ptr (commands f ! c)"
  let ?bs = "map command_end_ptr (take c (commands f))"
  let ?q = "p\<lparr>current_command_index := int c, call_queue := []\<rparr>"
  have ends: "ends = ?bs @ [?e]" unfolding ends_def using c by (rule ends_Suc)
  then have last: "last ends = ?e" and butlast: "butlast ends = ?bs" by simp_all
  from ordered have srt: "sorted (?a # ?bs @ [?e])" by (simp only: ends)
  then have le: "?a \<le> ?e" by simp
  have within': "?e \<le> length (trace_buffer ?q)" using within last by simp
  \<comment> \<open>seeking to \<open>c\<close> directly\<close>
  have len: "int c < int (length (commands f))" using c by simp
  have cond: "\<not> (int c \<noteq> 0 \<and> current_command_index p = int c - 1)"
    using fresh(1) by auto
  have "SeekCommand (int c) p =
      (if int c \<noteq> 0 \<and> current_command_index p = int c - 1
       then Inr (PlayTrace (command_end_ptr (commands f ! nat (int c - 1)))
                   (ptr_diff (command_end_ptr (commands f ! nat (int c)))
                      (command_end_ptr (commands f ! nat (int c - 1))))
                   kBreakOnSwap (p\<lparr>current_command_index := int c\<rparr>))
       else Inr (PlayTrace ?a (ptr_diff (command_end_ptr (commands f ! nat (int c))) ?a)
                   kBreakOnSwap (p\<lparr>current_command_index := int c\<rparr>)))"
    using fresh(1) le by (intro SeekCommand_body [OF _ _ frame _ len]) simp_all
  then have "SeekCommand (int c) p =
      Inr (PlayTrace ?a (ptr_diff (command_end_ptr (commands f ! nat (int c))) ?a)
             kBreakOnSwap (p\<lparr>current_command_index := int c\<rparr>))"
    by (simp only: if_not_P [OF cond])
  then have full: "seek_commands [int c] p =
      Inr (p\<lparr>current_command_index := int c,
             call_queue := [\<lparr>req_data = ?a, req_size = ?e - ?a, req_mode = kBreakOnSwap\<rparr>]\<rparr>)"
    using le fresh(2) by (simp add: seek_commands_single PlayTrace_def ptr_diff_le)
  \<comment> \<open>seeking step by step\<close>
  have steps: "seek_commands (map int [0..<Suc c]) p =
      Inr (p\<lparr>current_command_index := int c, call_queue := delta_requests ?a ends\<rparr>)"
    using stepwise_seeks [OF frame fresh(1) c ordered [unfolded ends_def]] fresh(2)
    by (simp add: ends_def)
  \<comment> \<open>running the queue\<close>
  have run_full: "seek_and_run X [int c] p = PlayTraceOnThread X ?a (?e - ?a) kBreakOnSwap ?q"
  proof -
    let ?r = "\<lparr>req_data = ?a, req_size = ?e - ?a, req_mode = kBreakOnSwap\<rparr>"
    let ?pF = "p\<lparr>current_command_index := int c, call_queue := [?r]\<rparr>"
    have "seek_and_run X [int c] p = run_queue X ?pF"
      by (simp only: seek_and_run_def full sum.case)
    also have "\<dots> = PlayTraceOnThread X (req_data ?r) (req_size ?r) (req_mode ?r)
        (?pF\<lparr>call_queue := []\<rparr>)"
      by (rule run_queue_single) simp
    also have "\<dots> = PlayTraceOnThread X ?a (?e - ?a) kBreakOnSwap ?q" by simp
    finally show ?thesis .
  qed
  have run_steps: "seek_and_run X (map int [0..<Suc c]) p =
      run_requests X (delta_requests ?a (?bs @ [?e])) ?q"
    by (simp only: seek_and_run_def steps sum.case run_queue_def ends) simp
  have "outcome physical_memory (PlayTraceOnThread X ?a (?e - ?a) kBreakOnSwap ?q)
      = map_option (map_sum id (final_memory X))
          (play_loop X kBreakOnSwap (?a + (?e - ?a)) (initial_locals ?a)
             (enter_replay ?a (?e - ?a) ?q))"
    using within' le by (intro PlayTraceOnThread_memory) simp
  also have "?a + (?e - ?a) = ?e" using le by simp
  also have "map_option (map_sum id (final_memory X))
          (play_loop X kBreakOnSwap ?e (initial_locals ?a) (enter_replay ?a (?e - ?a) ?q))
      = outcome physical_memory (run_requests X (delta_requests ?a (?bs @ [?e])) ?q)"
    using clean [unfolded butlast] srt within'
    by (rule full_replay_equals_steps) (simp_all add: machine_def enter_replay_def)
  finally have "outcome physical_memory (seek_and_run X [int c] p)
      = outcome physical_memory (seek_and_run X (map int [0..<Suc c]) p)"
    by (simp only: run_full run_steps)
  with full steps show ?thesis by (simp only: last simp_thms)
qed

theorem stepping_equals_full_replay_witness:
  "clean_steps copying_externals 0 [20] (new_player swap_between_packets [packet_frame])
   \<and> outcome (\<lambda>p. map (physical_memory p) [0x1000, 0x1100, 0x2000, 0x2100])
       (seek_and_run copying_externals [1] (new_player swap_between_packets [packet_frame]))
     = Some (Inr [0xAA, 0xAA, 0xBB, 0xBB])
   \<and> outcome physical_memory
       (seek_and_run copying_externals [1] (new_player swap_between_packets [packet_frame]))
     = outcome physical_memory
       (seek_and_run copying_externals [0, 1] (new_player swap_between_packets [packet_frame]))"
proof -
  let ?X = copying_externals
  let ?p = "new_player swap_between_packets [packet_frame]"
  let ?f = packet_frame
  have frame: "current_frame ?p = Some (Inr ?f)"
    by (simp add: current_frame_def frame_count_def frame_def new_player_def)
  have fresh: "current_command_index ?p = - 1" "call_queue ?p = []"
    by (simp_all add: new_player_def)
  have c: "1 < length (commands ?f)" by (simp add: packet_frame_def)
  have ends: "map command_end_ptr (take (Suc 1) (commands ?f)) = [20, 48]"
    "start_ptr ?f = 0"
    by (simp_all add: packet_frame_def)
  have ordered: "sorted (start_ptr ?f # map command_end_ptr (take (Suc 1) (commands ?f)))"
    unfolding ends by simp
  have within: "last (map command_end_ptr (take (Suc 1) (commands ?f))) \<le> length (trace_buffer ?p)"
    unfolding ends by (simp add: new_player_def swap_between_packets_def)
  have clean: "clean_steps ?X 0 [20] ?p"
    by (simp add: clean_replay_def replay_defs spec_defs play_loop_run play_loop_exhausted
        swap_between_packets_def copying_externals_def copy_first_byte_def)
  then have clean': "clean_steps ?X (start_ptr ?f)
      (butlast (map command_end_ptr (take (Suc 1) (commands ?f)))) ?p"
    unfolding ends by simp
  have eq: "outcome physical_memory (seek_and_run ?X [int 1] ?p)
      = outcome physical_memory (seek_and_run ?X (map int [0..<Suc 1]) ?p)"
    using stepping_equals_full_replay [OF frame fresh c ordered within clean'] by blast
  have "map int [0..<Suc 1] = [0, 1]" by (simp add: upt_rec)
  with eq have eq': "outcome physical_memory (seek_and_run ?X [1] ?p)
      = outcome physical_memory (seek_and_run ?X [0, 1] ?p)" by simp
  have s1: "seek_commands [1] ?p =
      Inr (?p\<lparr>current_command_index := 1,
              call_queue := [\<lparr>req_data = 0, req_size = 48, req_mode = kBreakOnSwap\<rparr>]\<rparr>)"
    by (simp add: SeekCommand_def current_frame_def frame_count_def frame_def command_at_def
        PlayTrace_def ptr_diff_def new_player_def packet_frame_def)
  have val: "outcome (\<lambda>p. map (physical_memory p) [0x1000, 0x1100, 0x2000, 0x2100])
        (seek_and_run ?X [1] ?p)
      = Some (Inr [0xAA, 0xAA, 0xBB, 0xBB])"
    unfolding seek_and_run_def s1
    by (simp add: run_queue_def outcome_def replay_defs spec_defs play_loop_run
        play_loop_exhausted swap_between_packets_def store_bytes_def
        copying_externals_def copy_first_byte_def)
  from clean val eq' show ?thesis by (simp only: simp_thms)
qed

end
